theory Spec2Isabelle
  imports Complex_Main
begin

section \<open>Values of the host language\<close>

text \<open>
  The script \<^verbatim>\<open>js/three.js\<close> is one module of top-level statements and event
  handlers. The handlers run to completion, one at a time, on the browser's single
  thread; the model is a state record and one function per handler.

  An uncaught exception ends the handler that raised it. The only exception the modelled
  statements can raise is the \<^verbatim>\<open>TypeError\<close> of reading a property of \<^verbatim>\<open>null\<close>.
\<close>

datatype error = TypeError

text \<open>
  What a property read on one of the script's two lookup tables can give back. The tables
  are object literals, so a read that finds no own property continues in
  \<^verbatim>\<open>Object.prototype\<close>: \<open>Builtin k\<close> is the built-in member found there under the
  key \<open>k\<close> (a function; for \<^verbatim>\<open>__proto__\<close> the prototype object itself).
\<close>

datatype js_value = Undefined | Str string | Builtin string

definition objectPrototype :: "string list" where
  "objectPrototype =
     [''constructor'', ''hasOwnProperty'', ''isPrototypeOf'', ''propertyIsEnumerable'',
      ''toLocaleString'', ''toString'', ''valueOf'', ''__proto__'',
      ''__defineGetter__'', ''__defineSetter__'', ''__lookupGetter__'', ''__lookupSetter__'']"

definition get_property :: "(string \<times> string) list \<Rightarrow> string \<Rightarrow> js_value" where
  "get_property obj key =
     (case map_of obj key of
        Some v \<Rightarrow> Str v
      | None \<Rightarrow> if key \<in> set objectPrototype then Builtin key else Undefined)"

fun truthy :: "js_value \<Rightarrow> bool" where
  "truthy Undefined = False"
| "truthy (Str v) = (v \<noteq> [])"
| "truthy (Builtin k) = True"

text \<open>\<^verbatim>\<open>a || b\<close>: the left operand when it is truthy, the right one otherwise.\<close>

definition or_else :: "js_value \<Rightarrow> js_value \<Rightarrow> js_value" where
  "or_else a b = (if truthy a then a else b)"

text \<open>
  The quotient of two window dimensions. \<open>Num q\<close> stands for the double nearest to the
  quotient \<open>q\<close>; a zero height gives \<^verbatim>\<open>Infinity\<close>, or \<^verbatim>\<open>NaN\<close> for \<^verbatim>\<open>0/0\<close>.
\<close>

datatype js_number = Num real | Infinity | NaN

definition divide :: "nat \<Rightarrow> nat \<Rightarrow> js_number" where
  "divide w h = (if h = 0 then (if w = 0 then NaN else Infinity) else Num (real w / real h))"

fun and_then :: "error + 'a \<Rightarrow> ('a \<Rightarrow> error + 'b) \<Rightarrow> error + 'b" where
  "and_then (Inl e) f = Inl e"
| "and_then (Inr x) f = f x"

section \<open>Materials and the scene graph\<close>

text \<open>
  Materials are objects shared by reference: a mesh holds references into a heap of
  materials, and recolouring one material is seen by every mesh that holds it. The colour
  of a material is the style string last given to \<^verbatim>\<open>color.set\<close>.
\<close>

type_synonym ref = nat

record material =
  name :: string
  color :: string

text \<open>
  \<^verbatim>\<open>THREE.Color.set\<close> takes a colour, a number or a style string and ignores any other
  value.
\<close>

fun color_set :: "js_value \<Rightarrow> material \<Rightarrow> material" where
  "color_set (Str v) mat = mat\<lparr>color := v\<rparr>"
| "color_set Undefined mat = mat"
| "color_set (Builtin k) mat = mat"

text \<open>The \<^verbatim>\<open>material\<close> property of a mesh: one material, or an array of them.\<close>

datatype slot = One ref | Many "ref list"

datatype object3d =
  Object3D (uuid: nat) (isMesh: bool) (material: slot) (children: "object3d list")

text \<open>\<^verbatim>\<open>Array.isArray(m) ? m : [m]\<close>\<close>

fun as_array :: "slot \<Rightarrow> ref list" where
  "as_array (One r) = [r]"
| "as_array (Many rs) = rs"

text \<open>
  \<^verbatim>\<open>Object3D.traverse\<close> calls back on the object, then on each child's subtree in
  turn; here it returns the objects in the order of the calls.
\<close>

fun traverse :: "object3d \<Rightarrow> object3d list" where
  "traverse (Object3D u m mat cs) = Object3D u m mat cs # concat (map traverse cs)"

section \<open>The script's constants\<close>

definition roofMaterialName :: string where
  "roofMaterialName = ''genting.004''"

definition roofColor :: string where
  "roofColor = ''#5CA9E9''"

definition otherMaterialColors :: "(string \<times> string) list" where
  "otherMaterialColors =
     [(''Glass.009'', ''#87CEEB''),
      (''Material.137'', ''#FFD700''),
      (''Material.136'', ''#228B22'')]"

definition materialDescriptions :: "(string \<times> string) list" where
  "materialDescriptions =
     [(''Glass.009'', ''Title of obj: WINDOW''),
      (''Material.137'', ''Title of obj: ROOF''),
      (''Material.136'', ''Title of obj: GARDEN'')]"

section \<open>The page state\<close>

record style =
  display :: string
  opacity :: string

text \<open>
  Callbacks the script hands to the browser: \<open>Animate\<close> is \<^verbatim>\<open>animate\<close>,
  \<open>RevealOverlay\<close> the arrow function of the click handler that sets the overlay's
  opacity to 1, \<open>HideOverlay\<close> the one of the key handler that sets its display to none.
\<close>

datatype callback = Animate | RevealOverlay | HideOverlay

datatype request = EnvRequest | ModelRequest

record gltf =
  gltf_scene :: object3d
  gltf_materials :: "ref \<Rightarrow> material"

text \<open>
  \<open>overlay\<close> is the element found under the id \<^verbatim>\<open>overlayContainer\<close>, \<open>None\<close>
  when the page has none. \<open>materialText\<close> is the value last assigned to the text
  element's \<^verbatim>\<open>textContent\<close>. \<open>frame_callbacks\<close> are the callbacks waiting for the
  next paint frame, \<open>timers\<close> the timeouts with the time at which each is due, and
  \<open>loading\<close> the loader requests still under way. \<open>projection_aspect\<close> is the aspect
  ratio the camera's projection matrix was last computed from.
\<close>

record state =
  clickableMeshes :: "object3d list"
  materials :: "ref \<Rightarrow> material"
  overlay :: "style option"
  materialInfoBox :: style
  materialText :: js_value
  scene_environment :: bool
  scene_model :: "object3d option"
  loading :: "request list"
  frame_callbacks :: "callback list"
  timers :: "(nat \<times> callback) list"
  now :: nat
  innerWidth :: nat
  innerHeight :: nat
  camera_aspect :: js_number
  projection_aspect :: js_number
  renderer_size :: "nat \<times> nat"

section \<open>Browser primitives\<close>

text \<open>Writes through the \<open>overlay\<close> variable dereference it.\<close>

definition set_overlay_display :: "string \<Rightarrow> state \<Rightarrow> error + state" where
  "set_overlay_display v s =
     (case overlay s of
        None \<Rightarrow> Inl TypeError
      | Some st \<Rightarrow> Inr (s\<lparr>overlay := Some (st\<lparr>display := v\<rparr>)\<rparr>))"

definition set_overlay_opacity :: "string \<Rightarrow> state \<Rightarrow> error + state" where
  "set_overlay_opacity v s =
     (case overlay s of
        None \<Rightarrow> Inl TypeError
      | Some st \<Rightarrow> Inr (s\<lparr>overlay := Some (st\<lparr>opacity := v\<rparr>)\<rparr>))"

definition requestAnimationFrame :: "callback \<Rightarrow> state \<Rightarrow> state" where
  "requestAnimationFrame cb s = s\<lparr>frame_callbacks := frame_callbacks s @ [cb]\<rparr>"

definition setTimeout :: "callback \<Rightarrow> nat \<Rightarrow> state \<Rightarrow> state" where
  "setTimeout cb delay s = s\<lparr>timers := timers s @ [(now s + delay, cb)]\<rparr>"

fun forEach :: "'a list \<Rightarrow> ('a \<Rightarrow> state \<Rightarrow> error + state) \<Rightarrow> state \<Rightarrow> error + state" where
  "forEach [] f s = Inr s"
| "forEach (x # xs) f s = and_then (f x s) (forEach xs f)"

text \<open>
  \<^verbatim>\<open>Raycaster.intersectObjects(objects, true)\<close>. The geometry of the scene is not part
  of the model: a click carries the objects its ray passes through, nearest first, and the
  ray caster keeps those that are among \<open>objects\<close> or their descendants. An object
  listed twice in \<open>objects\<close> is kept once here, where the library reports it once for
  each listing; the click handler reads only whether the result is empty and its first
  element, which are the same either way.
\<close>

definition intersectObjects :: "object3d list \<Rightarrow> object3d list \<Rightarrow> object3d list" where
  "intersectObjects objects ray = filter (\<lambda>h. h \<in> set (concat (map traverse objects))) ray"

section \<open>Loading\<close>

text \<open>The test of the load callback on one material.\<close>

definition clickable_material :: "material \<Rightarrow> bool" where
  "clickable_material mat =
     (name mat = roofMaterialName \<or> truthy (get_property otherMaterialColors (name mat)))"

text \<open>The inner \<^verbatim>\<open>materials.forEach\<close> of the load callback, for the mesh \<open>child\<close>.\<close>

fun push_matching ::
  "(ref \<Rightarrow> material) \<Rightarrow> object3d \<Rightarrow> ref list \<Rightarrow> object3d list \<Rightarrow> object3d list" where
  "push_matching heap child [] acc = acc"
| "push_matching heap child (r # rs) acc =
     push_matching heap child rs (if clickable_material (heap r) then acc @ [child] else acc)"

text \<open>The callback given to \<^verbatim>\<open>model.traverse\<close>.\<close>

definition tag_child ::
  "(ref \<Rightarrow> material) \<Rightarrow> object3d \<Rightarrow> object3d list \<Rightarrow> object3d list" where
  "tag_child heap child acc =
     (if isMesh child then push_matching heap child (as_array (material child)) acc else acc)"

text \<open>
  The callback of \<^verbatim>\<open>loader.load\<close> in \<^verbatim>\<open>loadModel\<close>. The materials that come
  with the model become the page's heap of materials; the model's scale and rotation, the
  shadow flags and the camera's target are not part of the state.
\<close>

definition on_model_loaded :: "gltf \<Rightarrow> state \<Rightarrow> state" where
  "on_model_loaded g s =
     s\<lparr>clickableMeshes :=
         fold (tag_child (gltf_materials g)) (traverse (gltf_scene g)) (clickableMeshes s),
       materials := gltf_materials g,
       scene_model := Some (gltf_scene g)\<rparr>"

definition loadModel :: "state \<Rightarrow> state" where
  "loadModel s = s\<lparr>loading := loading s @ [ModelRequest]\<rparr>"

text \<open>The callback of \<^verbatim>\<open>RGBELoader.load\<close>.\<close>

definition on_env_loaded :: "state \<Rightarrow> state" where
  "on_env_loaded s = loadModel (s\<lparr>scene_environment := True\<rparr>)"

section \<open>Event handlers\<close>

text \<open>The body of \<^verbatim>\<open>materials.forEach\<close> in the click handler.\<close>

definition click_material :: "ref \<Rightarrow> state \<Rightarrow> error + state" where
  "click_material r s =
     (let mat = materials s r in
      if name mat = roofMaterialName then
        (let s1 = s\<lparr>materials := (materials s)(r := color_set (Str roofColor) mat)\<rparr> in
         if overlay s1 \<noteq> None then
           and_then (set_overlay_display ''flex'' s1)
             (\<lambda>s2. Inr (requestAnimationFrame RevealOverlay s2))
         else Inr s1)
      else if truthy (get_property otherMaterialColors (name mat)) then
        Inr (s\<lparr>materials :=
                 (materials s)(r := color_set (get_property otherMaterialColors (name mat)) mat),
               materialText :=
                 or_else (get_property materialDescriptions (name mat)) (Str ''Material clicked.''),
               materialInfoBox := (materialInfoBox s)\<lparr>display := ''block''\<rparr>\<rparr>)
      else Inr s)"

text \<open>
  The click handler. The pointer coordinates only feed the ray caster, whose result the
  event carries as \<open>ray\<close>.
\<close>

definition on_click :: "object3d list \<Rightarrow> state \<Rightarrow> error + state" where
  "on_click ray s =
     (case intersectObjects (clickableMeshes s) ray of
        [] \<Rightarrow> Inr s
      | clicked # _ \<Rightarrow> forEach (as_array (material clicked)) click_material s)"

definition on_keydown :: "string \<Rightarrow> state \<Rightarrow> error + state" where
  "on_keydown key s =
     (if key = ''Escape'' then
        and_then
          (if overlay s \<noteq> None \<and> display (the (overlay s)) = ''flex'' then
             and_then (set_overlay_opacity ''0'' s) (\<lambda>s1. Inr (setTimeout HideOverlay 300 s1))
           else Inr s)
          (\<lambda>s2. Inr (if display (materialInfoBox s2) = ''block''
                     then s2\<lparr>materialInfoBox := (materialInfoBox s2)\<lparr>display := ''none''\<rparr>\<rparr>
                     else s2))
      else Inr s)"

text \<open>The close control of the info box.\<close>

definition on_close :: "state \<Rightarrow> state" where
  "on_close s = s\<lparr>materialInfoBox := (materialInfoBox s)\<lparr>display := ''none''\<rparr>\<rparr>"

text \<open>
  The resize handler reads the window's new dimensions, which the browser has set before
  it delivers the event.
\<close>

definition on_resize :: "state \<Rightarrow> state" where
  "on_resize s =
     (let s1 = s\<lparr>camera_aspect := divide (innerWidth s) (innerHeight s)\<rparr>;
          s2 = s1\<lparr>projection_aspect := camera_aspect s1\<rparr>
      in s2\<lparr>renderer_size := (innerWidth s2, innerHeight s2)\<rparr>)"

text \<open>
  \<^verbatim>\<open>animate\<close>: it asks for the next frame; \<^verbatim>\<open>mixer\<close> is never assigned, and the
  controls and the renderer touch nothing of the modelled state.
\<close>

definition animate :: "state \<Rightarrow> state" where
  "animate s = requestAnimationFrame Animate s"

fun run_callback :: "callback \<Rightarrow> state \<Rightarrow> error + state" where
  "run_callback Animate s = Inr (animate s)"
| "run_callback RevealOverlay s = set_overlay_opacity ''1'' s"
| "run_callback HideOverlay s = set_overlay_display ''none'' s"

section \<open>The browser's event loop\<close>

text \<open>
  \<open>Click ray\<close> is a click anywhere but on the close control, \<open>CloseClick ray\<close> a click
  on it: the control's own handler runs, then the click reaches the window's handler.
  \<open>Resize w h\<close> is the window resized to \<open>w\<close> by \<open>h\<close>. \<open>EnvLoaded\<close> and
  \<open>ModelLoaded g\<close> are the two loaders finishing; \<open>Frame\<close> is a paint frame, and
  \<open>Elapse d\<close> lets \<open>d\<close> milliseconds pass.
\<close>

datatype event =
    Click "object3d list"
  | CloseClick "object3d list"
  | KeyDown string
  | Resize nat nat
  | EnvLoaded
  | ModelLoaded gltf
  | Frame
  | Elapse nat

text \<open>A paint frame runs the callbacks that were waiting when it began.\<close>

definition frame :: "state \<Rightarrow> error + state" where
  "frame s = forEach (frame_callbacks s) run_callback (s\<lparr>frame_callbacks := []\<rparr>)"

text \<open>Time passing runs the timeouts that have become due, oldest first.\<close>

definition elapse :: "nat \<Rightarrow> state \<Rightarrow> error + state" where
  "elapse d s =
     (let t = now s + d in
      forEach (map snd (filter (\<lambda>(due, cb). due \<le> t) (timers s))) run_callback
        (s\<lparr>now := t, timers := filter (\<lambda>(due, cb). \<not> due \<le> t) (timers s)\<rparr>))"

text \<open>A loader's callback runs only for a request that is under way.\<close>

fun handle :: "event \<Rightarrow> state \<Rightarrow> error + state" where
  "handle (Click ray) s = on_click ray s"
| "handle (CloseClick ray) s = on_click ray (on_close s)"
| "handle (KeyDown key) s = on_keydown key s"
| "handle (Resize w h) s = Inr (on_resize (s\<lparr>innerWidth := w, innerHeight := h\<rparr>))"
| "handle EnvLoaded s =
     (if EnvRequest \<in> set (loading s)
      then Inr (on_env_loaded (s\<lparr>loading := remove1 EnvRequest (loading s)\<rparr>))
      else Inr s)"
| "handle (ModelLoaded g) s =
     (if ModelRequest \<in> set (loading s)
      then Inr (on_model_loaded g (s\<lparr>loading := remove1 ModelRequest (loading s)\<rparr>))
      else Inr s)"
| "handle Frame s = frame s"
| "handle (Elapse d) s = elapse d s"

fun run :: "event list \<Rightarrow> state \<Rightarrow> error + state" where
  "run [] s = Inr s"
| "run (e # es) s = and_then (handle e s) (run es)"

text \<open>
  The state the top-level statements leave: \<open>present\<close> says whether the page has the
  overlay element, \<open>w\<close> and \<open>h\<close> are the window's dimensions. The environment map is
  requested, and \<^verbatim>\<open>animate\<close> has run once.
\<close>

definition init :: "bool \<Rightarrow> nat \<Rightarrow> nat \<Rightarrow> state" where
  "init present w h =
     \<lparr>clickableMeshes = [],
      materials = (\<lambda>r. \<lparr>name = [], color = []\<rparr>),
      overlay = (if present then Some \<lparr>display = ''none'', opacity = ''0''\<rparr> else None),
      materialInfoBox = \<lparr>display = [], opacity = []\<rparr>,
      materialText = Str ''Material info will appear here.'',
      scene_environment = False,
      scene_model = None,
      loading = [EnvRequest],
      frame_callbacks = [Animate],
      timers = [],
      now = 0,
      innerWidth = w,
      innerHeight = h,
      camera_aspect = divide w h,
      projection_aspect = divide w h,
      renderer_size = (w, h)\<rparr>"

section \<open>A small house\<close>

text \<open>
  A model of four meshes under one group: a roof, a gable with the material
  \<^verbatim>\<open>Material.137\<close>, a porch with two materials and a wall that no table knows; and the
  ground plane, which is in the scene but not in the model.
\<close>

definition roof_mesh :: object3d where
  "roof_mesh = Object3D 1 True (One 10) []"

definition gable_mesh :: object3d where
  "gable_mesh = Object3D 2 True (One 11) []"

definition porch_mesh :: object3d where
  "porch_mesh = Object3D 3 True (Many [11, 12]) []"

definition wall_mesh :: object3d where
  "wall_mesh = Object3D 4 True (One 13) []"

definition ground :: object3d where
  "ground = Object3D 5 True (One 14) []"

definition house_materials :: "ref \<Rightarrow> material" where
  "house_materials r =
     (if r = 10 then \<lparr>name = ''genting.004'', color = ''#8B4513''\<rparr>
      else if r = 11 then \<lparr>name = ''Material.137'', color = ''#A0522D''\<rparr>
      else if r = 12 then \<lparr>name = ''Glass.009'', color = ''#E0FFFF''\<rparr>
      else \<lparr>name = ''Wall'', color = ''#FFFFFF''\<rparr>)"

definition house :: gltf where
  "house =
     \<lparr>gltf_scene = Object3D 0 False (Many []) [roof_mesh, gable_mesh, porch_mesh, wall_mesh],
      gltf_materials = house_materials\<rparr>"

text \<open>The page once both loaders have finished, with or without the overlay element.\<close>

definition loaded :: "bool \<Rightarrow> state" where
  "loaded present = projr (run [EnvLoaded, ModelLoaded house] (init present 800 600))"

text \<open>
  The page with the overlay after a click on the porch, a click on the roof and a paint
  frame: the overlay and the info box are both visible.
\<close>

definition shown :: state where
  "shown = projr (run [Click [porch_mesh], Click [roof_mesh, ground], Frame] (loaded True))"

section \<open>A cottage with objects below its roof\<close>

text \<open>
  A roof mesh with two children: a chimney, which is a mesh of a material that no table
  knows, and a trim, which is a line and no mesh, of the window material.
\<close>

definition chimney :: object3d where
  "chimney = Object3D 2 True (One 31) []"

definition trim :: object3d where
  "trim = Object3D 3 False (One 32) []"

definition cottage_roof :: object3d where
  "cottage_roof = Object3D 1 True (One 30) [chimney, trim]"

definition cottage_materials :: "ref \<Rightarrow> material" where
  "cottage_materials r =
     (if r = 30 then \<lparr>name = ''genting.004'', color = ''#8B4513''\<rparr>
      else if r = 31 then \<lparr>name = ''Brick'', color = ''#B22222''\<rparr>
      else \<lparr>name = ''Glass.009'', color = ''#E0FFFF''\<rparr>)"

definition cottage :: gltf where
  "cottage =
     \<lparr>gltf_scene = Object3D 0 False (Many []) [cottage_roof],
      gltf_materials = cottage_materials\<rparr>"

definition cottage_loaded :: state where
  "cottage_loaded = projr (run [EnvLoaded, ModelLoaded cottage] (init True 800 600))"

section \<open>Two models with unusual material names\<close>

text \<open>
  An attic whose only material is named \<^verbatim>\<open>constructor\<close>, and a shed with a window
  material and a material named \<^verbatim>\<open>toString\<close>.
\<close>

definition attic_mesh :: object3d where
  "attic_mesh = Object3D 1 True (One 20) []"

definition attic_materials :: "ref \<Rightarrow> material" where
  "attic_materials r = \<lparr>name = ''constructor'', color = ''#808080''\<rparr>"

definition attic :: gltf where
  "attic =
     \<lparr>gltf_scene = Object3D 0 False (Many []) [attic_mesh],
      gltf_materials = attic_materials\<rparr>"

definition shed_mesh :: object3d where
  "shed_mesh = Object3D 1 True (Many [21, 22]) []"

definition shed_materials :: "ref \<Rightarrow> material" where
  "shed_materials r =
     (if r = 21 then \<lparr>name = ''Glass.009'', color = ''#E0FFFF''\<rparr>
      else \<lparr>name = ''toString'', color = ''#808080''\<rparr>)"

definition shed :: gltf where
  "shed =
     \<lparr>gltf_scene = Object3D 0 False (Many []) [shed_mesh],
      gltf_materials = shed_materials\<rparr>"

text \<open>The names of the script's tables: the roof's, and the keys of the colour table.\<close>

definition known_names :: "string list" where
  "known_names = roofMaterialName # map fst otherMaterialColors"

section \<open>Invariants of the event loop\<close>

text \<open>
  Two callbacks write to the overlay without a check of their own. While the page has no
  overlay, neither is waiting: only \<^verbatim>\<open>animate\<close> waits for a frame, and no timeout is
  set.
\<close>

definition callbacks_guarded :: "state \<Rightarrow> bool" where
  "callbacks_guarded s =
     (overlay s = None \<longrightarrow> set (frame_callbacks s) \<subseteq> {Animate} \<and> timers s = [])"

text \<open>
  The three phases of loading: the environment map requested, then the model requested
  with the environment installed, then the model in the scene and nothing under way. The
  clickable list is empty until the last.
\<close>

definition load_phase :: "state \<Rightarrow> bool" where
  "load_phase s =
     (loading s = [EnvRequest] \<and> \<not> scene_environment s \<and> scene_model s = None
        \<and> clickableMeshes s = []
      \<or> loading s = [ModelRequest] \<and> scene_environment s \<and> scene_model s = None
        \<and> clickableMeshes s = []
      \<or> loading s = [] \<and> scene_environment s \<and> scene_model s \<noteq> None)"


text \<open>
  The clickable list holds every mesh below one of its members that has a material
  passing the load callback's test.
\<close>

definition descendants_tagged :: "state \<Rightarrow> bool" where
  "descendants_tagged s =
     (\<forall>m\<in>set (clickableMeshes s). \<forall>d\<in>set (traverse m).
        isMesh d \<and> (\<exists>r\<in>set (as_array (material d)). clickable_material (materials s r))
        \<longrightarrow> d \<in> set (clickableMeshes s))"

section \<open>Sequencing\<close>

lemma and_then_Inr_iff:
  "and_then m f = Inr y \<longleftrightarrow> (\<exists>x. m = Inr x \<and> f x = Inr y)"
  by (cases m) simp_all

lemma forEach_append:
  "forEach (xs @ ys) f s = and_then (forEach xs f s) (forEach ys f)"
proof (induction xs arbitrary: s)
  case Nil
  show ?case by simp
next
  case (Cons x xs)
  show ?case by (cases "f x s") (simp_all add: Cons.IH)
qed

text \<open>A loop whose body keeps an invariant and never throws keeps it and never throws.\<close>

lemma forEach_total:
  assumes step: "\<And>x t. x \<in> set xs \<Longrightarrow> I t \<Longrightarrow> \<exists>t'. f x t = Inr t' \<and> I t'"
    and start: "I s"
  shows "\<exists>s'. forEach xs f s = Inr s' \<and> I s'"
  using assms
proof (induction xs arbitrary: s)
  case Nil
  then show ?case by simp
next
  case (Cons x xs)
  from Cons.prems obtain t where t: "f x s = Inr t" "I t"
    by (meson list.set_intros(1))
  have "\<exists>s'. forEach xs f t = Inr s' \<and> I s'"
    by (rule Cons.IH) (use Cons.prems t in auto)
  with t show ?case by simp
qed

lemma forEach_invariant:
  assumes "forEach xs f s = Inr s'" and "I s"
    and "\<And>x t t'. x \<in> set xs \<Longrightarrow> I t \<Longrightarrow> f x t = Inr t' \<Longrightarrow> I t'"
  shows "I s'"
  using assms
proof (induction xs arbitrary: s)
  case Nil
  then show ?case by simp
next
  case (Cons x xs)
  from Cons.prems(1) obtain t where t: "f x s = Inr t" "forEach xs f t = Inr s'"
    by (auto simp: and_then_Inr_iff)
  have "I t" using Cons.prems(2,3) t(1) by auto
  show ?case
    by (rule Cons.IH [OF t(2) \<open>I t\<close>]) (use Cons.prems(3) in auto)
qed

lemma run_append:
  "run (xs @ ys) s = and_then (run xs s) (run ys)"
proof (induction xs arbitrary: s)
  case Nil
  show ?case by simp
next
  case (Cons e es)
  show ?case by (cases "handle e s") (simp_all add: Cons.IH)
qed

section \<open>The example house, evaluated\<close>

lemma clickable_house_materials:
  "clickable_material (house_materials 10)" "clickable_material (house_materials 11)"
  "clickable_material (house_materials 12)" "\<not> clickable_material (house_materials 13)"
  by (simp_all add: clickable_material_def house_materials_def roofMaterialName_def
      get_property_def otherMaterialColors_def objectPrototype_def)

lemma init_fields:
  "clickableMeshes (init present w h) = []"
  "overlay (init present w h) =
     (if present then Some \<lparr>display = ''none'', opacity = ''0''\<rparr> else None)"
  "materialInfoBox (init present w h) = \<lparr>display = [], opacity = []\<rparr>"
  "scene_environment (init present w h) = False"
  "scene_model (init present w h) = None"
  "loading (init present w h) = [EnvRequest]"
  "frame_callbacks (init present w h) = [Animate]"
  "timers (init present w h) = []"
  "now (init present w h) = 0"
  by (simp_all add: init_def)

lemma run_loaded:
  "run [EnvLoaded, ModelLoaded house] (init present 800 600) =
     Inr ((init present 800 600)
       \<lparr>clickableMeshes := [roof_mesh, gable_mesh, porch_mesh, porch_mesh],
        materials := house_materials,
        scene_environment := True,
        scene_model := Some (gltf_scene house),
        loading := []\<rparr>)"
proof -
  have "fold (tag_child house_materials) (traverse (gltf_scene house)) [] =
      [roof_mesh, gable_mesh, porch_mesh, porch_mesh]"
    by (simp add: house_def tag_child_def roof_mesh_def gable_mesh_def porch_mesh_def
        wall_mesh_def clickable_house_materials)
  moreover have "gltf_materials house = house_materials"
    by (simp add: house_def)
  ultimately show ?thesis
    by (simp add: init_fields on_env_loaded_def loadModel_def on_model_loaded_def)
qed

lemma loaded_eq:
  "loaded present =
     (init present 800 600)
       \<lparr>clickableMeshes := [roof_mesh, gable_mesh, porch_mesh, porch_mesh],
        materials := house_materials,
        scene_environment := True,
        scene_model := Some (gltf_scene house),
        loading := []\<rparr>"
  unfolding loaded_def run_loaded by simp

lemma loaded_fields:
  "clickableMeshes (loaded present) = [roof_mesh, gable_mesh, porch_mesh, porch_mesh]"
  "materials (loaded present) = house_materials"
  "overlay (loaded present) =
     (if present then Some \<lparr>display = ''none'', opacity = ''0''\<rparr> else None)"
  "materialInfoBox (loaded present) = \<lparr>display = [], opacity = []\<rparr>"
  "frame_callbacks (loaded present) = [Animate]"
  "timers (loaded present) = []"
  "now (loaded present) = 0"
  by (simp_all add: loaded_eq init_fields)

lemma intersect_loaded:
  "intersectObjects (clickableMeshes (loaded present)) [ground] = []"
  "intersectObjects (clickableMeshes (loaded present)) [wall_mesh, ground] = []"
  "intersectObjects (clickableMeshes (loaded present)) [roof_mesh, ground] = [roof_mesh]"
  "intersectObjects (clickableMeshes (loaded present)) [gable_mesh, wall_mesh] = [gable_mesh]"
  "intersectObjects (clickableMeshes (loaded present)) [porch_mesh] = [porch_mesh]"
  by (simp_all add: loaded_fields intersectObjects_def roof_mesh_def gable_mesh_def
      porch_mesh_def wall_mesh_def ground_def)

section \<open>Clicks that hit nothing\<close>

lemma on_click_miss:
  assumes "intersectObjects (clickableMeshes s) ray = []"
  shows "on_click ray s = Inr s"
  using assms by (simp add: on_click_def)

section \<open>Resizing\<close>

text \<open>
  Claim C7. A resize to \<open>w\<close> by \<open>h\<close> sets the camera's aspect ratio to the quotient
  of \<open>w\<close> by \<open>h\<close> (for a height of zero, to what the division gives in the host
  language: \<^verbatim>\<open>Infinity\<close>, or \<^verbatim>\<open>NaN\<close> when the width is zero too), recomputes the
  projection from that aspect ratio and sets the drawing surface to \<open>w\<close> by \<open>h\<close>; a
  second resize to the same dimensions changes nothing more.
\<close>

theorem resize_sets_aspect_and_size_idempotently:
  "\<exists>s'. handle (Resize w h) s = Inr s'
     \<and> camera_aspect s' =
         (if h = 0 then (if w = 0 then NaN else Infinity) else Num (real w / real h))
     \<and> projection_aspect s' = camera_aspect s'
     \<and> renderer_size s' = (w, h)
     \<and> handle (Resize w h) s' = Inr s'"
  by (simp add: on_resize_def Let_def divide_def)

theorem resize_sets_aspect_and_size_idempotently_witness:
  "\<exists>s'. handle (Resize 800 600) (loaded True) = Inr s'
     \<and> camera_aspect s' = Num (4 / 3)
     \<and> projection_aspect s' = Num (4 / 3)
     \<and> renderer_size s' = (800, 600)
     \<and> handle (Resize 800 600) s' = Inr s'"
  using resize_sets_aspect_and_size_idempotently [of 800 600 "loaded True"] by simp

section \<open>The loop of the click handler\<close>

lemma name_color_set [simp]: "name (color_set v mat) = name mat"
  by (cases v) simp_all

lemma click_material_roof:
  assumes "name (materials s r) = roofMaterialName" "overlay s = Some st"
  shows "click_material r s =
    Inr (s\<lparr>materials := (materials s)(r := (materials s r)\<lparr>color := roofColor\<rparr>),
           overlay := Some (st\<lparr>display := ''flex''\<rparr>),
           frame_callbacks := frame_callbacks s @ [RevealOverlay]\<rparr>)"
  using assms
  by (simp add: click_material_def Let_def set_overlay_display_def requestAnimationFrame_def)

lemma click_material_roof_bare:
  assumes "name (materials s r) = roofMaterialName" "overlay s = None"
  shows "click_material r s =
    Inr (s\<lparr>materials := (materials s)(r := (materials s r)\<lparr>color := roofColor\<rparr>)\<rparr>)"
  using assms by (simp add: click_material_def Let_def)

lemma click_material_other:
  assumes "name (materials s r) \<noteq> roofMaterialName"
    "truthy (get_property otherMaterialColors (name (materials s r)))"
  shows "click_material r s =
    Inr (s\<lparr>materials :=
             (materials s)(r := color_set (get_property otherMaterialColors (name (materials s r)))
                                  (materials s r)),
           materialText := or_else (get_property materialDescriptions (name (materials s r)))
                             (Str ''Material clicked.''),
           materialInfoBox := (materialInfoBox s)\<lparr>display := ''block''\<rparr>\<rparr>)"
  using assms by (simp add: click_material_def Let_def)

lemma click_material_skip:
  assumes "name (materials s r) \<noteq> roofMaterialName"
    "\<not> truthy (get_property otherMaterialColors (name (materials s r)))"
  shows "click_material r s = Inr s"
  using assms by (simp add: click_material_def Let_def)

text \<open>What one step of the loop leaves alone, whichever branch it takes.\<close>

lemma click_material_frame:
  "\<exists>s'. click_material r s = Inr s'
     \<and> (\<forall>x. name (materials s' x) = name (materials s x))
     \<and> (\<forall>x. x \<noteq> r \<longrightarrow> materials s' x = materials s x)
     \<and> clickableMeshes s' = clickableMeshes s
     \<and> scene_environment s' = scene_environment s
     \<and> scene_model s' = scene_model s
     \<and> loading s' = loading s
     \<and> timers s' = timers s
     \<and> now s' = now s
     \<and> (overlay s' = None \<longleftrightarrow> overlay s = None)
     \<and> (overlay s = None \<longrightarrow> frame_callbacks s' = frame_callbacks s)
     \<and> set (frame_callbacks s) \<subseteq> set (frame_callbacks s')
     \<and> set (frame_callbacks s') \<subseteq> insert RevealOverlay (set (frame_callbacks s))"
proof (cases "name (materials s r) = roofMaterialName")
  case True
  then show ?thesis
    by (cases "overlay s") (auto simp: click_material_roof click_material_roof_bare)
next
  case False
  then show ?thesis
    by (cases "truthy (get_property otherMaterialColors (name (materials s r)))")
       (auto simp: click_material_other click_material_skip)
qed

lemma on_click_hit:
  assumes "intersectObjects (clickableMeshes s) ray = clicked # rest"
  shows "on_click ray s = forEach (as_array (material clicked)) click_material s"
  using assms by (simp add: on_click_def)

lemma click_loop_names:
  "\<exists>s'. forEach rs click_material s = Inr s'
     \<and> (\<forall>x. name (materials s' x) = name (materials s x))"
proof (rule forEach_total)
  show "\<forall>x. name (materials s x) = name (materials s x)" by simp
next
  fix q and t :: state
  assume "\<forall>x. name (materials t x) = name (materials s x)"
  with click_material_frame [of q t]
  show "\<exists>t'. click_material q t = Inr t' \<and> (\<forall>x. name (materials t' x) = name (materials s x))"
    by auto
qed

section \<open>Clicks on a material of the colour table\<close>

lemma table_137:
  "''Material.137'' \<noteq> roofMaterialName"
  "get_property otherMaterialColors ''Material.137'' = Str ''#FFD700''"
  "get_property materialDescriptions ''Material.137'' = Str ''Title of obj: ROOF''"
  by (simp_all add: roofMaterialName_def get_property_def otherMaterialColors_def
      materialDescriptions_def)

lemma click_material_137:
  assumes "name (materials s r) = ''Material.137''"
  shows "click_material r s =
    Inr (s\<lparr>materials := (materials s)(r := (materials s r)\<lparr>color := ''#FFD700''\<rparr>),
           materialText := Str ''Title of obj: ROOF'',
           materialInfoBox := (materialInfoBox s)\<lparr>display := ''block''\<rparr>\<rparr>)"
  using assms by (simp add: click_material_other table_137 or_else_def)

text \<open>
  Once the material \<open>r\<close> has been recoloured, the rest of the loop keeps its colour and
  keeps the info box shown; a step that does not take the table branch keeps the text too.
\<close>

lemma click_material_keeps_137:
  assumes nm: "name (materials t r) = ''Material.137''"
    and col: "color (materials t r) = ''#FFD700''"
    and box: "display (materialInfoBox t) = ''block''"
  shows "\<exists>t'. click_material q t = Inr t'
     \<and> name (materials t' r) = ''Material.137''
     \<and> color (materials t' r) = ''#FFD700''
     \<and> display (materialInfoBox t') = ''block''
     \<and> (name (materials t q) = roofMaterialName
          \<or> \<not> truthy (get_property otherMaterialColors (name (materials t q)))
         \<longrightarrow> materialText t' = materialText t)"
proof (cases "name (materials t q) = roofMaterialName")
  case True
  with nm table_137(1) have "q \<noteq> r" by auto
  with True assms show ?thesis
    by (cases "overlay t") (auto simp: click_material_roof click_material_roof_bare)
next
  case False
  show ?thesis
  proof (cases "truthy (get_property otherMaterialColors (name (materials t q)))")
    case True
    with False assms show ?thesis
      by (cases "q = r") (auto simp: click_material_other table_137)
  next
    case False
    with \<open>name (materials t q) \<noteq> roofMaterialName\<close> assms show ?thesis
      by (simp add: click_material_skip)
  qed
qed

text \<open>
  Claim C1, as amended. When the nearest hit is a mesh that carries a material \<open>r\<close>
  named \<^verbatim>\<open>Material.137\<close>, the click handler returns normally, and afterwards the colour
  of \<open>r\<close> is \<^verbatim>\<open>#FFD700\<close> and the info box is displayed as a block. The text is
  \<^verbatim>\<open>Title of obj: ROOF\<close> afterwards when no material that follows \<open>r\<close> in the
  mesh's material list takes the colour-table branch, that is, when each of them is a
  roof material or has no truthy entry in the colour table.
\<close>

theorem click_on_material_137:
  assumes hit: "intersectObjects (clickableMeshes s) ray = clicked # rest"
    and mats: "as_array (material clicked) = before @ r # after"
    and nm: "name (materials s r) = ''Material.137''"
  shows "\<exists>s'. on_click ray s = Inr s'
     \<and> color (materials s' r) = ''#FFD700''
     \<and> display (materialInfoBox s') = ''block''
     \<and> ((\<forall>q\<in>set after. name (materials s q) = roofMaterialName
            \<or> \<not> truthy (get_property otherMaterialColors (name (materials s q))))
         \<longrightarrow> materialText s' = Str ''Title of obj: ROOF'')"
proof -
  let ?quiet = "\<forall>q\<in>set after. name (materials s q) = roofMaterialName
            \<or> \<not> truthy (get_property otherMaterialColors (name (materials s q)))"
  obtain s1 where s1: "forEach before click_material s = Inr s1"
    and names1: "\<forall>x. name (materials s1 x) = name (materials s x)"
    using click_loop_names [of before s] by auto
  define s2 where "s2 =
    s1\<lparr>materials := (materials s1)(r := (materials s1 r)\<lparr>color := ''#FFD700''\<rparr>),
       materialText := Str ''Title of obj: ROOF'',
       materialInfoBox := (materialInfoBox s1)\<lparr>display := ''block''\<rparr>\<rparr>"
  have s2: "click_material r s1 = Inr s2"
    unfolding s2_def using names1 nm by (simp add: click_material_137)
  let ?I = "\<lambda>t. (\<forall>x. name (materials t x) = name (materials s x))
     \<and> color (materials t r) = ''#FFD700''
     \<and> display (materialInfoBox t) = ''block''
     \<and> (?quiet \<longrightarrow> materialText t = Str ''Title of obj: ROOF'')"
  have "\<exists>s'. forEach after click_material s2 = Inr s' \<and> ?I s'"
  proof (rule forEach_total)
    show "?I s2" using names1 by (simp add: s2_def)
  next
    fix q and t :: state
    assume q: "q \<in> set after" and t: "?I t"
    from t nm have "name (materials t r) = ''Material.137''" by simp
    from click_material_keeps_137 [OF this, of q] t
    obtain t' where t': "click_material q t = Inr t'"
      "color (materials t' r) = ''#FFD700''" "display (materialInfoBox t') = ''block''"
      "name (materials t q) = roofMaterialName
          \<or> \<not> truthy (get_property otherMaterialColors (name (materials t q)))
         \<longrightarrow> materialText t' = materialText t"
      by blast
    from click_material_frame [of q t] t'(1) t
    have "\<forall>x. name (materials t' x) = name (materials s x)" by auto
    moreover from t'(4) q t have "?quiet \<longrightarrow> materialText t' = Str ''Title of obj: ROOF''"
      by auto
    ultimately show "\<exists>t'. click_material q t = Inr t' \<and> ?I t'"
      using t' by blast
  qed
  then obtain s' where "forEach after click_material s2 = Inr s'" "?I s'" by blast
  with s1 s2 have "forEach (before @ r # after) click_material s = Inr s'"
    by (simp add: forEach_append)
  with \<open>?I s'\<close> show ?thesis
    unfolding on_click_hit [OF hit] mats by blast
qed

lemma click_gable_setting:
  "intersectObjects (clickableMeshes (loaded True)) [gable_mesh, wall_mesh] = [gable_mesh]"
  "as_array (material gable_mesh) = [] @ 11 # []"
  "name (materials (loaded True) 11) = ''Material.137''"
  unfolding intersect_loaded
  by (simp_all add: loaded_fields gable_mesh_def house_materials_def)

theorem click_on_material_137_witness:
  "intersectObjects (clickableMeshes (loaded True)) [gable_mesh, wall_mesh] = [gable_mesh]
   \<and> as_array (material gable_mesh) = [] @ 11 # []
   \<and> name (materials (loaded True) 11) = ''Material.137''
   \<and> (\<exists>s'. on_click [gable_mesh, wall_mesh] (loaded True) = Inr s'
        \<and> color (materials s' 11) = ''#FFD700''
        \<and> display (materialInfoBox s') = ''block''
        \<and> materialText s' = Str ''Title of obj: ROOF'')"
  using click_on_material_137 [OF click_gable_setting] click_gable_setting by simp

text \<open>
  The claim as it stands promises the text whenever the mesh carries such a material. The
  porch carries \<^verbatim>\<open>Material.137\<close> and then \<^verbatim>\<open>Glass.009\<close>: the loop writes the roof's
  title, then the window's over it.
\<close>

lemma click_porch:
  "on_click [porch_mesh] (loaded True) =
     Inr ((loaded True)
       \<lparr>materials := house_materials
          (11 := \<lparr>name = ''Material.137'', color = ''#FFD700''\<rparr>,
           12 := \<lparr>name = ''Glass.009'', color = ''#87CEEB''\<rparr>),
        materialText := Str ''Title of obj: WINDOW'',
        materialInfoBox := \<lparr>display = ''block'', opacity = []\<rparr>\<rparr>)"
  unfolding on_click_def intersect_loaded
  by (simp add: porch_mesh_def click_material_def Let_def
      loaded_fields house_materials_def roofMaterialName_def get_property_def
      otherMaterialColors_def materialDescriptions_def or_else_def)

theorem click_on_material_137_text_overwritten:
  "intersectObjects (clickableMeshes (loaded True)) [porch_mesh] = [porch_mesh]
   \<and> as_array (material porch_mesh) = [11, 12]
   \<and> name (materials (loaded True) 11) = ''Material.137''
   \<and> \<not> isl (on_click [porch_mesh] (loaded True))
   \<and> materialText (projr (on_click [porch_mesh] (loaded True))) = Str ''Title of obj: WINDOW''
   \<and> materialText (projr (on_click [porch_mesh] (loaded True))) \<noteq> Str ''Title of obj: ROOF''"
  unfolding click_porch intersect_loaded
  by (simp add: loaded_fields porch_mesh_def house_materials_def)

section \<open>Handlers never throw\<close>

text \<open>What a callback leaves alone when it returns.\<close>

lemma run_callback_frame:
  assumes "run_callback cb s = Inr s'"
  shows "(overlay s' = None \<longleftrightarrow> overlay s = None)
     \<and> set (frame_callbacks s) \<subseteq> set (frame_callbacks s')
     \<and> set (frame_callbacks s') \<subseteq> insert Animate (set (frame_callbacks s))
     \<and> timers s' = timers s
     \<and> now s' = now s
     \<and> clickableMeshes s' = clickableMeshes s
     \<and> materials s' = materials s
     \<and> loading s' = loading s
     \<and> scene_model s' = scene_model s
     \<and> scene_environment s' = scene_environment s
     \<and> materialInfoBox s' = materialInfoBox s
     \<and> materialText s' = materialText s"
  using assms
  by (cases cb)
     (auto simp: animate_def requestAnimationFrame_def set_overlay_display_def
        set_overlay_opacity_def split: option.splits)

lemma run_callback_total:
  assumes "overlay s \<noteq> None \<or> cb = Animate"
  shows "\<exists>s'. run_callback cb s = Inr s'"
  using assms
  by (cases cb) (auto simp: set_overlay_display_def set_overlay_opacity_def)

lemma click_material_returned:
  assumes "click_material r s = Inr s'"
  shows "(\<forall>x. name (materials s' x) = name (materials s x))
     \<and> (\<forall>x. x \<noteq> r \<longrightarrow> materials s' x = materials s x)
     \<and> clickableMeshes s' = clickableMeshes s
     \<and> scene_environment s' = scene_environment s
     \<and> scene_model s' = scene_model s
     \<and> loading s' = loading s
     \<and> timers s' = timers s
     \<and> now s' = now s
     \<and> (overlay s' = None \<longleftrightarrow> overlay s = None)
     \<and> (overlay s = None \<longrightarrow> frame_callbacks s' = frame_callbacks s)
     \<and> set (frame_callbacks s) \<subseteq> set (frame_callbacks s')
     \<and> set (frame_callbacks s') \<subseteq> insert RevealOverlay (set (frame_callbacks s))"
  using click_material_frame [of r s] assms by auto

lemma on_click_total: "\<exists>s'. on_click ray s = Inr s'"
proof (cases "intersectObjects (clickableMeshes s) ray")
  case Nil
  then show ?thesis by (simp add: on_click_def)
next
  case (Cons clicked rest)
  with click_loop_names [of "as_array (material clicked)" s] show ?thesis
    by (auto simp: on_click_hit)
qed

text \<open>The fields a click never touches, and those it only adds to.\<close>

lemma on_click_frame:
  assumes "on_click ray s = Inr s'"
  shows "(\<forall>x. name (materials s' x) = name (materials s x))
     \<and> clickableMeshes s' = clickableMeshes s
     \<and> scene_environment s' = scene_environment s
     \<and> scene_model s' = scene_model s
     \<and> loading s' = loading s
     \<and> timers s' = timers s
     \<and> now s' = now s
     \<and> (overlay s' = None \<longleftrightarrow> overlay s = None)
     \<and> (overlay s = None \<longrightarrow> frame_callbacks s' = frame_callbacks s)
     \<and> set (frame_callbacks s) \<subseteq> set (frame_callbacks s')
     \<and> set (frame_callbacks s') \<subseteq> insert RevealOverlay (set (frame_callbacks s))"
proof (cases "intersectObjects (clickableMeshes s) ray")
  case Nil
  with assms show ?thesis by (auto simp: on_click_def)
next
  case (Cons clicked rest)
  let ?I = "\<lambda>t. (\<forall>x. name (materials t x) = name (materials s x))
     \<and> clickableMeshes t = clickableMeshes s
     \<and> scene_environment t = scene_environment s
     \<and> scene_model t = scene_model s
     \<and> loading t = loading s
     \<and> timers t = timers s
     \<and> now t = now s
     \<and> (overlay t = None \<longleftrightarrow> overlay s = None)
     \<and> (overlay s = None \<longrightarrow> frame_callbacks t = frame_callbacks s)
     \<and> set (frame_callbacks s) \<subseteq> set (frame_callbacks t)
     \<and> set (frame_callbacks t) \<subseteq> insert RevealOverlay (set (frame_callbacks s))"
  from assms Cons
  have loop: "forEach (as_array (material clicked)) click_material s = Inr s'"
    by (simp add: on_click_hit)
  have "?I s'"
  proof (rule forEach_invariant [OF loop, where I = ?I])
    show "?I s" by auto
  next
    fix q and t t' :: state
    assume "?I t" and "click_material q t = Inr t'"
    with click_material_returned [of q t t'] show "?I t'" by auto
  qed
  then show ?thesis .
qed

text \<open>A run of callbacks, as a paint frame or the timeouts falling due make it.\<close>

lemma callbacks_frame:
  assumes "forEach cbs run_callback s = Inr s'"
  shows "(overlay s' = None \<longleftrightarrow> overlay s = None)
     \<and> set (frame_callbacks s) \<subseteq> set (frame_callbacks s')
     \<and> set (frame_callbacks s') \<subseteq> insert Animate (set (frame_callbacks s))
     \<and> timers s' = timers s
     \<and> now s' = now s
     \<and> clickableMeshes s' = clickableMeshes s
     \<and> materials s' = materials s
     \<and> loading s' = loading s
     \<and> scene_model s' = scene_model s
     \<and> scene_environment s' = scene_environment s
     \<and> materialInfoBox s' = materialInfoBox s
     \<and> materialText s' = materialText s"
proof -
  let ?I = "\<lambda>t. (overlay t = None \<longleftrightarrow> overlay s = None)
     \<and> set (frame_callbacks s) \<subseteq> set (frame_callbacks t)
     \<and> set (frame_callbacks t) \<subseteq> insert Animate (set (frame_callbacks s))
     \<and> timers t = timers s
     \<and> now t = now s
     \<and> clickableMeshes t = clickableMeshes s
     \<and> materials t = materials s
     \<and> loading t = loading s
     \<and> scene_model t = scene_model s
     \<and> scene_environment t = scene_environment s
     \<and> materialInfoBox t = materialInfoBox s
     \<and> materialText t = materialText s"
  have "?I s'"
  proof (rule forEach_invariant [OF assms, where I = ?I])
    show "?I s" by auto
  next
    fix cb and t t' :: state
    assume "?I t" and "run_callback cb t = Inr t'"
    with run_callback_frame [of cb t t'] show "?I t'" by auto
  qed
  then show ?thesis .
qed

lemma callbacks_total:
  assumes "overlay s \<noteq> None \<or> set cbs \<subseteq> {Animate}"
  shows "\<exists>s'. forEach cbs run_callback s = Inr s'"
proof -
  have "\<exists>s'. forEach cbs run_callback s = Inr s' \<and> (overlay s' = None \<longleftrightarrow> overlay s = None)"
  proof (rule forEach_total)
    show "overlay s = None \<longleftrightarrow> overlay s = None" by simp
  next
    fix cb and t :: state
    assume cb: "cb \<in> set cbs" and t: "overlay t = None \<longleftrightarrow> overlay s = None"
    with assms have "overlay t \<noteq> None \<or> cb = Animate" by auto
    from run_callback_total [OF this] obtain t' where t': "run_callback cb t = Inr t'" ..
    with run_callback_frame [OF t'] t
    show "\<exists>t'. run_callback cb t = Inr t' \<and> (overlay t' = None \<longleftrightarrow> overlay s = None)"
      by auto
  qed
  then show ?thesis by blast
qed

lemma on_keydown_total: "\<exists>s'. on_keydown key s = Inr s'"
  by (cases "overlay s")
     (auto simp: on_keydown_def set_overlay_opacity_def setTimeout_def)

lemma on_keydown_frame:
  assumes "on_keydown key s = Inr s'"
  shows "(overlay s' = None \<longleftrightarrow> overlay s = None)
     \<and> frame_callbacks s' = frame_callbacks s
     \<and> (overlay s = None \<longrightarrow> timers s' = timers s)
     \<and> (timers s' = timers s \<or> timers s' = timers s @ [(now s + 300, HideOverlay)])
     \<and> now s' = now s
     \<and> clickableMeshes s' = clickableMeshes s
     \<and> materials s' = materials s
     \<and> loading s' = loading s
     \<and> scene_model s' = scene_model s
     \<and> scene_environment s' = scene_environment s"
  using assms
  by (cases "overlay s")
     (auto simp: on_keydown_def set_overlay_opacity_def setTimeout_def split: if_splits)

lemma frame_total:
  assumes "callbacks_guarded s"
  shows "\<exists>s'. frame s = Inr s'"
  unfolding frame_def
  by (rule callbacks_total) (use assms in \<open>auto simp: callbacks_guarded_def\<close>)

lemma elapse_total:
  assumes "callbacks_guarded s"
  shows "\<exists>s'. elapse d s = Inr s'"
  unfolding elapse_def Let_def
  by (rule callbacks_total) (use assms in \<open>auto simp: callbacks_guarded_def\<close>)

lemma frame_frame:
  assumes "frame s = Inr s'"
  shows "(overlay s' = None \<longleftrightarrow> overlay s = None)
     \<and> set (frame_callbacks s') \<subseteq> {Animate}
     \<and> timers s' = timers s
     \<and> now s' = now s
     \<and> clickableMeshes s' = clickableMeshes s
     \<and> materials s' = materials s
     \<and> loading s' = loading s
     \<and> scene_model s' = scene_model s
     \<and> scene_environment s' = scene_environment s"
  using callbacks_frame [OF assms [unfolded frame_def]] by auto

lemma elapse_frame:
  assumes "elapse d s = Inr s'"
  shows "(overlay s' = None \<longleftrightarrow> overlay s = None)
     \<and> set (frame_callbacks s) \<subseteq> set (frame_callbacks s')
     \<and> set (frame_callbacks s') \<subseteq> insert Animate (set (frame_callbacks s))
     \<and> set (timers s') \<subseteq> set (timers s)
     \<and> now s' = now s + d
     \<and> clickableMeshes s' = clickableMeshes s
     \<and> materials s' = materials s
     \<and> loading s' = loading s
     \<and> scene_model s' = scene_model s
     \<and> scene_environment s' = scene_environment s"
  using callbacks_frame [OF assms [unfolded elapse_def Let_def]] by auto

text \<open>No handler throws while every callback that writes to the overlay has an overlay.\<close>

lemma handle_guarded:
  assumes "callbacks_guarded s"
  shows "\<exists>s'. handle e s = Inr s' \<and> callbacks_guarded s'"
proof (cases e)
  case (Click ray)
  from on_click_total obtain s' where s': "on_click ray s = Inr s'" ..
  with on_click_frame [OF s'] assms Click show ?thesis
    by (auto simp: callbacks_guarded_def)
next
  case (CloseClick ray)
  from on_click_total obtain s' where s': "on_click ray (on_close s) = Inr s'" ..
  with on_click_frame [OF s'] assms CloseClick show ?thesis
    by (auto simp: callbacks_guarded_def on_close_def)
next
  case (KeyDown key)
  from on_keydown_total obtain s' where s': "on_keydown key s = Inr s'" ..
  with on_keydown_frame [OF s'] assms KeyDown show ?thesis
    by (auto simp: callbacks_guarded_def)
next
  case (Resize w h)
  with assms show ?thesis
    by (simp add: callbacks_guarded_def on_resize_def Let_def)
next
  case EnvLoaded
  with assms show ?thesis
    by (simp add: callbacks_guarded_def on_env_loaded_def loadModel_def)
next
  case (ModelLoaded g)
  with assms show ?thesis
    by (simp add: callbacks_guarded_def on_model_loaded_def)
next
  case Frame
  from frame_total [OF assms] obtain s' where s': "frame s = Inr s'" ..
  with frame_frame [OF s'] assms Frame show ?thesis
    by (auto simp: callbacks_guarded_def)
next
  case (Elapse d)
  from elapse_total [OF assms] obtain s' where s': "elapse d s = Inr s'" ..
  with elapse_frame [OF s'] assms Elapse show ?thesis
    by (auto simp: callbacks_guarded_def)
qed

lemma run_guarded:
  assumes "callbacks_guarded s"
  shows "\<exists>s'. run es s = Inr s' \<and> callbacks_guarded s'"
  using assms
proof (induction es arbitrary: s)
  case Nil
  then show ?case by simp
next
  case (Cons e es)
  from handle_guarded [OF Cons.prems] obtain t
    where t: "handle e s = Inr t" "callbacks_guarded t" by blast
  from Cons.IH [OF t(2)] t(1) show ?case by simp
qed

lemma init_guarded: "callbacks_guarded (init present w h)"
  by (simp add: callbacks_guarded_def init_fields)

text \<open>What every handler leaves alone when it returns.\<close>

lemma handle_frame:
  assumes "handle e s = Inr s'"
  shows "(overlay s' = None \<longleftrightarrow> overlay s = None)
     \<and> (e \<noteq> Frame \<longrightarrow> set (frame_callbacks s) \<subseteq> set (frame_callbacks s'))
     \<and> ((\<forall>d. e \<noteq> Elapse d) \<longrightarrow> now s' = now s \<and> set (timers s) \<subseteq> set (timers s'))"
proof (cases e)
  case (Click ray)
  with assms on_click_frame [of ray s s'] show ?thesis by auto
next
  case (CloseClick ray)
  with assms on_click_frame [of ray "on_close s" s'] show ?thesis
    by (auto simp: on_close_def)
next
  case (KeyDown key)
  with assms on_keydown_frame [of key s s'] show ?thesis by auto
next
  case (Resize w h)
  with assms show ?thesis by (auto simp: on_resize_def Let_def)
next
  case EnvLoaded
  with assms show ?thesis
    by (auto simp: on_env_loaded_def loadModel_def split: if_splits)
next
  case (ModelLoaded g)
  with assms show ?thesis
    by (auto simp: on_model_loaded_def split: if_splits)
next
  case Frame
  with assms frame_frame [of s s'] show ?thesis by auto
next
  case (Elapse d)
  with assms elapse_frame [of d s s'] show ?thesis by auto
qed

lemma handle_load_phase:
  assumes "handle e s = Inr s'" and "load_phase s"
  shows "load_phase s'"
    and "scene_model s \<noteq> None \<Longrightarrow> clickableMeshes s' = clickableMeshes s"
    and "scene_model s \<noteq> None \<Longrightarrow> scene_model s' = scene_model s"
proof -
  have "load_phase s' \<and> (scene_model s \<noteq> None \<longrightarrow>
      clickableMeshes s' = clickableMeshes s \<and> scene_model s' = scene_model s)"
  proof (cases e)
    case (Click ray)
    with assms on_click_frame [of ray s s'] show ?thesis
      by (auto simp: load_phase_def)
  next
    case (CloseClick ray)
    with assms on_click_frame [of ray "on_close s" s'] show ?thesis
      by (auto simp: on_close_def load_phase_def)
  next
    case (KeyDown key)
    with assms on_keydown_frame [of key s s'] show ?thesis
      by (auto simp: load_phase_def)
  next
    case (Resize w h)
    with assms show ?thesis by (auto simp: on_resize_def Let_def load_phase_def)
  next
    case EnvLoaded
    with assms show ?thesis
      by (auto simp: on_env_loaded_def loadModel_def load_phase_def split: if_splits)
  next
    case (ModelLoaded g)
    with assms show ?thesis
      by (auto simp: on_model_loaded_def load_phase_def split: if_splits)
  next
    case Frame
    with assms frame_frame [of s s'] show ?thesis by (auto simp: load_phase_def)
  next
    case (Elapse d)
    with assms elapse_frame [of d s s'] show ?thesis by (auto simp: load_phase_def)
  qed
  then show "load_phase s'"
    and "scene_model s \<noteq> None \<Longrightarrow> clickableMeshes s' = clickableMeshes s"
    and "scene_model s \<noteq> None \<Longrightarrow> scene_model s' = scene_model s" by auto
qed

lemma init_load_phase: "load_phase (init present w h)"
  by (simp add: load_phase_def init_fields)

text \<open>Every run of events from the page as loaded returns, in a state of the invariants.\<close>

lemma run_invariants:
  assumes "callbacks_guarded s" and "load_phase s"
  shows "\<exists>s'. run es s = Inr s' \<and> callbacks_guarded s' \<and> load_phase s'
           \<and> (overlay s' = None \<longleftrightarrow> overlay s = None)"
  using assms
proof (induction es arbitrary: s)
  case Nil
  then show ?case by simp
next
  case (Cons e es)
  from handle_guarded [OF Cons.prems(1)] obtain t
    where t: "handle e s = Inr t" "callbacks_guarded t" by blast
  from handle_load_phase(1) [OF t(1) Cons.prems(2)] have "load_phase t" .
  from Cons.IH [OF t(2) this] handle_frame [OF t(1)] t(1) show ?case by auto
qed

section \<open>Clicks on the roof\<close>

lemma click_material_keeps_roof:
  assumes "name (materials t q) = roofMaterialName" "color (materials t q) = roofColor"
  shows "\<exists>t'. click_material x t = Inr t'
     \<and> name (materials t' q) = roofMaterialName \<and> color (materials t' q) = roofColor"
proof (cases "x = q")
  case True
  with assms show ?thesis
    by (cases "overlay t") (auto simp: click_material_roof click_material_roof_bare)
next
  case False
  with click_material_frame [of x t] assms show ?thesis by auto
qed

lemma click_recolours_roof:
  assumes hit: "intersectObjects (clickableMeshes s) ray = clicked # rest"
    and q: "q \<in> set (as_array (material clicked))"
    and nm: "name (materials s q) = roofMaterialName"
  shows "\<exists>s'. on_click ray s = Inr s' \<and> color (materials s' q) = roofColor"
proof -
  from q obtain before after where mats: "as_array (material clicked) = before @ q # after"
    by (auto dest: split_list)
  obtain s1 where s1: "forEach before click_material s = Inr s1"
    and names1: "\<forall>x. name (materials s1 x) = name (materials s x)"
    using click_loop_names [of before s] by auto
  from names1 nm have nm1: "name (materials s1 q) = roofMaterialName" by simp
  have "\<exists>s2. click_material q s1 = Inr s2
     \<and> name (materials s2 q) = roofMaterialName \<and> color (materials s2 q) = roofColor"
    using nm1
    by (cases "overlay s1") (auto simp: click_material_roof click_material_roof_bare)
  then obtain s2 where s2: "click_material q s1 = Inr s2"
    and roof2: "name (materials s2 q) = roofMaterialName \<and> color (materials s2 q) = roofColor"
    by blast
  let ?I = "\<lambda>t. name (materials t q) = roofMaterialName \<and> color (materials t q) = roofColor"
  have "\<exists>s'. forEach after click_material s2 = Inr s' \<and> ?I s'"
  proof (rule forEach_total)
    show "?I s2" by (rule roof2)
  next
    fix x and t :: state
    assume "?I t"
    then show "\<exists>t'. click_material x t = Inr t' \<and> ?I t'"
      using click_material_keeps_roof [of t q x] by simp
  qed
  then obtain s' where "forEach after click_material s2 = Inr s'" "?I s'" by blast
  with s1 s2 have "forEach (before @ q # after) click_material s = Inr s'"
    by (simp add: forEach_append)
  with \<open>?I s'\<close> show ?thesis
    unfolding on_click_hit [OF hit] mats by blast
qed

section \<open>A page without the overlay element\<close>

text \<open>
  Claim C9. On a page without the element \<^verbatim>\<open>overlayContainer\<close>, no sequence of events
  makes a handler or a callback dereference the missing element: every run returns
  normally, and the overlay stays absent. A click whose nearest hit is the roof mesh still
  sets the colour of each of its materials named \<^verbatim>\<open>genting.004\<close> to \<^verbatim>\<open>#5CA9E9\<close>.
\<close>

theorem no_overlay_no_dereference:
  "\<exists>s. run es (init False w h) = Inr s \<and> overlay s = None
     \<and> (\<forall>ray clicked rest.
          intersectObjects (clickableMeshes s) ray = clicked # rest \<longrightarrow>
          (\<exists>s'. on_click ray s = Inr s' \<and> overlay s' = None
             \<and> (\<forall>q\<in>set (as_array (material clicked)).
                  name (materials s q) = ''genting.004'' \<longrightarrow>
                  color (materials s' q) = ''#5CA9E9'')))"
proof -
  from run_invariants [OF init_guarded init_load_phase, of es False w h]
  obtain s where s: "run es (init False w h) = Inr s" "overlay s = None"
    by (auto simp: init_fields)
  have "\<exists>s'. on_click ray s = Inr s' \<and> overlay s' = None
             \<and> (\<forall>q\<in>set (as_array (material clicked)).
                  name (materials s q) = ''genting.004'' \<longrightarrow>
                  color (materials s' q) = ''#5CA9E9'')"
    if hit: "intersectObjects (clickableMeshes s) ray = clicked # rest"
    for ray clicked rest
  proof -
    from on_click_total obtain s' where s': "on_click ray s = Inr s'" ..
    from on_click_frame [OF s'] s(2) have "overlay s' = None" by simp
    moreover have "color (materials s' q) = ''#5CA9E9''"
      if "q \<in> set (as_array (material clicked))" "name (materials s q) = ''genting.004''" for q
      using click_recolours_roof [OF hit that(1)] that(2) s'
      by (auto simp: roofMaterialName_def roofColor_def)
    ultimately show ?thesis using s' by blast
  qed
  with s show ?thesis by blast
qed

theorem no_overlay_no_dereference_witness:
  "run [EnvLoaded, ModelLoaded house] (init False 800 600) = Inr (loaded False)
   \<and> overlay (loaded False) = None
   \<and> intersectObjects (clickableMeshes (loaded False)) [roof_mesh, ground] = [roof_mesh]
   \<and> name (materials (loaded False) 10) = ''genting.004''
   \<and> (\<exists>s'. on_click [roof_mesh, ground] (loaded False) = Inr s' \<and> overlay s' = None
        \<and> color (materials s' 10) = ''#5CA9E9'')"
proof -
  have run: "run [EnvLoaded, ModelLoaded house] (init False 800 600) = Inr (loaded False)"
    by (simp only: run_loaded loaded_eq)
  have hit: "intersectObjects (clickableMeshes (loaded False)) [roof_mesh, ground] = [roof_mesh]"
    by (rule intersect_loaded)
  have roof: "10 \<in> set (as_array (material roof_mesh))"
    "name (materials (loaded False) 10) = ''genting.004''"
    by (simp_all add: roof_mesh_def loaded_fields house_materials_def)
  from no_overlay_no_dereference [of "[EnvLoaded, ModelLoaded house]" 800 600]
  have "\<forall>ray clicked rest.
          intersectObjects (clickableMeshes (loaded False)) ray = clicked # rest \<longrightarrow>
          (\<exists>s'. on_click ray (loaded False) = Inr s' \<and> overlay s' = None
             \<and> (\<forall>q\<in>set (as_array (material clicked)).
                  name (materials (loaded False) q) = ''genting.004'' \<longrightarrow>
                  color (materials s' q) = ''#5CA9E9''))"
    unfolding run by simp
  with hit roof have "\<exists>s'. on_click [roof_mesh, ground] (loaded False) = Inr s'
      \<and> overlay s' = None \<and> color (materials s' 10) = ''#5CA9E9''"
    by blast
  with run hit roof show ?thesis by (simp add: loaded_fields)
qed

lemma click_material_overlay:
  assumes "overlay t = Some u"
  shows "\<exists>t'. click_material x t = Inr t'
     \<and> (overlay t' = Some u \<and> name (materials t x) \<noteq> roofMaterialName
        \<or> overlay t' = Some (u\<lparr>display := ''flex''\<rparr>)
          \<and> RevealOverlay \<in> set (frame_callbacks t'))"
proof (cases "name (materials t x) = roofMaterialName")
  case True
  with assms show ?thesis by (simp add: click_material_roof)
next
  case False
  with assms show ?thesis
    by (cases "truthy (get_property otherMaterialColors (name (materials t x)))")
       (auto simp: click_material_other click_material_skip)
qed

lemma click_reveals_overlay:
  assumes hit: "intersectObjects (clickableMeshes s) ray = clicked # rest"
    and q: "q \<in> set (as_array (material clicked))"
    and nm: "name (materials s q) = roofMaterialName"
    and ov: "overlay s = Some st"
  shows "\<exists>s'. on_click ray s = Inr s' \<and> overlay s' = Some (st\<lparr>display := ''flex''\<rparr>)
     \<and> RevealOverlay \<in> set (frame_callbacks s')"
proof -
  let ?names = "\<lambda>t. \<forall>x. name (materials t x) = name (materials s x)"
  let ?shown = "\<lambda>t. overlay t = Some (st\<lparr>display := ''flex''\<rparr>)
     \<and> RevealOverlay \<in> set (frame_callbacks t)"
  from q obtain before after where mats: "as_array (material clicked) = before @ q # after"
    by (auto dest: split_list)
  let ?I = "\<lambda>t. ?names t \<and> (overlay t = Some st \<or> ?shown t)"
  have "\<exists>s1. forEach before click_material s = Inr s1 \<and> ?I s1"
  proof (rule forEach_total)
    show "?I s" using ov by simp
  next
    fix x and t :: state
    assume t: "?I t"
    then obtain u where u: "overlay t = Some u" "u = st \<or> u = st\<lparr>display := ''flex''\<rparr>"
      by auto
    from click_material_overlay [OF u(1), of x] obtain t'
      where t': "click_material x t = Inr t'"
        "overlay t' = Some u \<and> name (materials t x) \<noteq> roofMaterialName
         \<or> overlay t' = Some (u\<lparr>display := ''flex''\<rparr>)
           \<and> RevealOverlay \<in> set (frame_callbacks t')"
      by blast
    from click_material_returned [OF t'(1)] t have "?names t'"
      and "set (frame_callbacks t) \<subseteq> set (frame_callbacks t')" by auto
    with t t' u show "\<exists>t'. click_material x t = Inr t' \<and> ?I t'" by auto
  qed
  then obtain s1 where s1: "forEach before click_material s = Inr s1" "?I s1" by blast
  then obtain u where u: "overlay s1 = Some u" "u = st \<or> u = st\<lparr>display := ''flex''\<rparr>"
    by auto
  from s1 nm have "name (materials s1 q) = roofMaterialName" by simp
  with click_material_overlay [OF u(1), of q] u(2)
  obtain s2 where s2: "click_material q s1 = Inr s2" "?shown s2" by auto
  have "\<exists>s'. forEach after click_material s2 = Inr s' \<and> ?shown s'"
  proof (rule forEach_total)
    show "?shown s2" by (rule s2(2))
  next
    fix x and t :: state
    assume t: "?shown t"
    from click_material_overlay [of t "st\<lparr>display := ''flex''\<rparr>" x] t obtain t'
      where t': "click_material x t = Inr t'"
        "overlay t' = Some (st\<lparr>display := ''flex''\<rparr>)" by auto
    from click_material_returned [OF t'(1)] t
    have "RevealOverlay \<in> set (frame_callbacks t')" by auto
    with t' show "\<exists>t'. click_material x t = Inr t' \<and> ?shown t'" by blast
  qed
  then obtain s' where "forEach after click_material s2 = Inr s'" "?shown s'" by blast
  with s1 s2 have "forEach (before @ q # after) click_material s = Inr s'"
    by (simp add: forEach_append)
  with \<open>?shown s'\<close> show ?thesis
    unfolding on_click_hit [OF hit] mats by blast
qed

text \<open>A frame that runs the revealing callback ends with the overlay opaque.\<close>

lemma run_callback_opaque:
  assumes "overlay t = Some u" "opacity u = ''1''"
  shows "\<exists>t' u'. run_callback cb t = Inr t' \<and> overlay t' = Some u' \<and> opacity u' = ''1''"
  using assms
  by (cases cb)
     (auto simp: animate_def requestAnimationFrame_def set_overlay_display_def
        set_overlay_opacity_def)

lemma reveal_among_callbacks:
  assumes ov: "overlay s \<noteq> None" and cb: "RevealOverlay \<in> set cbs"
  shows "\<exists>s' u. forEach cbs run_callback s = Inr s' \<and> overlay s' = Some u \<and> opacity u = ''1''"
proof -
  from cb obtain before after where cbs: "cbs = before @ RevealOverlay # after"
    by (auto dest: split_list)
  from callbacks_total [of s before] ov
  obtain s1 where s1: "forEach before run_callback s = Inr s1" by blast
  from callbacks_frame [OF s1] ov obtain u1 where u1: "overlay s1 = Some u1" by auto
  define s2 where "s2 = s1\<lparr>overlay := Some (u1\<lparr>opacity := ''1''\<rparr>)\<rparr>"
  have s2: "run_callback RevealOverlay s1 = Inr s2"
    by (simp add: set_overlay_opacity_def u1 s2_def)
  let ?I = "\<lambda>t. \<exists>u. overlay t = Some u \<and> opacity u = ''1''"
  have "\<exists>s'. forEach after run_callback s2 = Inr s' \<and> ?I s'"
  proof (rule forEach_total)
    show "?I s2" by (simp add: s2_def)
  next
    fix x and t :: state
    assume "?I t"
    then show "\<exists>t'. run_callback x t = Inr t' \<and> ?I t'"
      using run_callback_opaque [of t _ x] by blast
  qed
  with s1 s2 show ?thesis
    unfolding cbs by (auto simp: forEach_append)
qed

lemma reveal_at_next_frame:
  assumes ov: "overlay s \<noteq> None" and cb: "RevealOverlay \<in> set (frame_callbacks s)"
    and es: "Frame \<notin> set es"
  shows "\<exists>s' u. run (es @ [Frame]) s = Inr s' \<and> overlay s' = Some u \<and> opacity u = ''1''"
  using assms
proof (induction es arbitrary: s)
  case Nil
  from reveal_among_callbacks [of "s\<lparr>frame_callbacks := []\<rparr>" "frame_callbacks s"] Nil
  show ?case by (auto simp: frame_def)
next
  case (Cons e es)
  from Cons.prems(1) have "callbacks_guarded s" by (auto simp: callbacks_guarded_def)
  from handle_guarded [OF this] obtain t where t: "handle e s = Inr t" by blast
  from handle_frame [OF t] Cons.prems
  have "overlay t \<noteq> None" "RevealOverlay \<in> set (frame_callbacks t)" "Frame \<notin> set es"
    by auto
  from Cons.IH [OF this] t show ?case by simp
qed

text \<open>
  Claim C2. When the nearest hit is the roof mesh, the click handler returns normally and
  every material of the mesh named \<^verbatim>\<open>genting.004\<close> has the colour \<^verbatim>\<open>#5CA9E9\<close>
  afterwards. Where the page has the overlay, the click sets its display to
  \<^verbatim>\<open>flex\<close> and leaves its opacity as it was, with the revealing callback waiting for
  the next paint frame; whatever events come before that frame, the overlay's opacity is
  \<^verbatim>\<open>1\<close> once the frame has run.
\<close>

theorem click_on_roof:
  assumes hit: "intersectObjects (clickableMeshes s) ray = clicked # rest"
    and roof: "r \<in> set (as_array (material clicked))" "name (materials s r) = ''genting.004''"
  shows "\<exists>s1. on_click ray s = Inr s1
     \<and> (\<forall>q\<in>set (as_array (material clicked)).
          name (materials s q) = ''genting.004'' \<longrightarrow> color (materials s1 q) = ''#5CA9E9'')
     \<and> (\<forall>st. overlay s = Some st \<longrightarrow>
          overlay s1 = Some (st\<lparr>display := ''flex''\<rparr>)
          \<and> RevealOverlay \<in> set (frame_callbacks s1)
          \<and> (\<forall>es. Frame \<notin> set es \<longrightarrow>
                (\<exists>s2 st2. run (es @ [Frame]) s1 = Inr s2
                   \<and> overlay s2 = Some st2 \<and> opacity st2 = ''1'')))"
proof -
  from on_click_total obtain s1 where s1: "on_click ray s = Inr s1" ..
  have "color (materials s1 q) = ''#5CA9E9''"
    if "q \<in> set (as_array (material clicked))" "name (materials s q) = ''genting.004''" for q
    using click_recolours_roof [OF hit that(1)] that(2) s1
    by (auto simp: roofMaterialName_def roofColor_def)
  moreover have "overlay s1 = Some (st\<lparr>display := ''flex''\<rparr>)
          \<and> RevealOverlay \<in> set (frame_callbacks s1)
          \<and> (\<forall>es. Frame \<notin> set es \<longrightarrow>
                (\<exists>s2 st2. run (es @ [Frame]) s1 = Inr s2
                   \<and> overlay s2 = Some st2 \<and> opacity st2 = ''1''))"
    if ov: "overlay s = Some st" for st
  proof -
    from click_reveals_overlay [OF hit roof(1) _ ov] roof(2) s1
    have shown: "overlay s1 = Some (st\<lparr>display := ''flex''\<rparr>)"
      "RevealOverlay \<in> set (frame_callbacks s1)"
      by (auto simp: roofMaterialName_def)
    then have "overlay s1 \<noteq> None" by simp
    from reveal_at_next_frame [OF this shown(2)] shown show ?thesis by blast
  qed
  ultimately show ?thesis using s1 by blast
qed

lemma click_roof_setting:
  "intersectObjects (clickableMeshes (loaded True)) [roof_mesh, ground] = [roof_mesh]"
  "10 \<in> set (as_array (material roof_mesh))"
  "name (materials (loaded True) 10) = ''genting.004''"
  "overlay (loaded True) = Some \<lparr>display = ''none'', opacity = ''0''\<rparr>"
  unfolding intersect_loaded
  by (simp_all add: loaded_fields roof_mesh_def house_materials_def)

theorem click_on_roof_witness:
  "intersectObjects (clickableMeshes (loaded True)) [roof_mesh, ground] = [roof_mesh]
   \<and> 10 \<in> set (as_array (material roof_mesh))
   \<and> name (materials (loaded True) 10) = ''genting.004''
   \<and> overlay (loaded True) = Some \<lparr>display = ''none'', opacity = ''0''\<rparr>
   \<and> (\<exists>s1. on_click [roof_mesh, ground] (loaded True) = Inr s1
        \<and> color (materials s1 10) = ''#5CA9E9''
        \<and> overlay s1 = Some \<lparr>display = ''flex'', opacity = ''0''\<rparr>
        \<and> RevealOverlay \<in> set (frame_callbacks s1)
        \<and> (\<exists>s2 st2. run ([KeyDown ''Escape'', Resize 640 480] @ [Frame]) s1 = Inr s2
              \<and> overlay s2 = Some st2 \<and> opacity st2 = ''1''))"
proof -
  from click_on_roof [OF click_roof_setting(1-3)]
  obtain s1 where s1: "on_click [roof_mesh, ground] (loaded True) = Inr s1"
    and col: "\<forall>q\<in>set (as_array (material roof_mesh)).
          name (materials (loaded True) q) = ''genting.004'' \<longrightarrow>
          color (materials s1 q) = ''#5CA9E9''"
    and ov: "\<forall>st. overlay (loaded True) = Some st \<longrightarrow>
          overlay s1 = Some (st\<lparr>display := ''flex''\<rparr>)
          \<and> RevealOverlay \<in> set (frame_callbacks s1)
          \<and> (\<forall>es. Frame \<notin> set es \<longrightarrow>
                (\<exists>s2 st2. run (es @ [Frame]) s1 = Inr s2
                   \<and> overlay s2 = Some st2 \<and> opacity st2 = ''1''))"
    by blast
  from col click_roof_setting(2,3) have "color (materials s1 10) = ''#5CA9E9''" by blast
  moreover from ov click_roof_setting(4)
  have shown: "overlay s1 = Some (\<lparr>display = ''none'', opacity = ''0''\<rparr>\<lparr>display := ''flex''\<rparr>)"
    "RevealOverlay \<in> set (frame_callbacks s1)"
    and later: "\<forall>es. Frame \<notin> set es \<longrightarrow>
                (\<exists>s2 st2. run (es @ [Frame]) s1 = Inr s2
                   \<and> overlay s2 = Some st2 \<and> opacity st2 = ''1'')"
    by blast+
  have "Frame \<notin> set [KeyDown ''Escape'', Resize 640 480]" by simp
  with later have "\<exists>s2 st2. run ([KeyDown ''Escape'', Resize 640 480] @ [Frame]) s1 = Inr s2
              \<and> overlay s2 = Some st2 \<and> opacity st2 = ''1''" by blast
  ultimately show ?thesis using s1 shown click_roof_setting by simp
qed

section \<open>Loading\<close>

text \<open>
  Claim C6. In every state the page can reach, a model request under way or a model in the
  scene means that the environment map has been loaded and installed, its request no
  longer pending; and as long as the model has not been loaded the clickable list is
  empty, so that a click leaves the state as it was.
\<close>

theorem model_waits_for_environment:
  "\<exists>s. run es (init present w h) = Inr s
     \<and> (ModelRequest \<in> set (loading s) \<or> scene_model s \<noteq> None
          \<longrightarrow> scene_environment s \<and> EnvRequest \<notin> set (loading s))
     \<and> (scene_model s = None
          \<longrightarrow> clickableMeshes s = [] \<and> (\<forall>ray. handle (Click ray) s = Inr s))"
proof -
  from run_invariants [OF init_guarded init_load_phase, of es present w h]
  obtain s where s: "run es (init present w h) = Inr s" "load_phase s" by blast
  from s(2) have "ModelRequest \<in> set (loading s) \<or> scene_model s \<noteq> None
          \<longrightarrow> scene_environment s \<and> EnvRequest \<notin> set (loading s)"
    by (auto simp: load_phase_def)
  moreover from s(2) have "scene_model s = None
          \<longrightarrow> clickableMeshes s = [] \<and> (\<forall>ray. handle (Click ray) s = Inr s)"
    by (auto simp: load_phase_def on_click_def intersectObjects_def)
  ultimately show ?thesis using s(1) by (intro exI [of _ s] conjI)
qed

theorem model_waits_for_environment_witness:
  "\<exists>s. run [Click [roof_mesh], EnvLoaded] (init True 800 600) = Inr s
     \<and> ModelRequest \<in> set (loading s)
     \<and> scene_model s = None
     \<and> scene_environment s \<and> EnvRequest \<notin> set (loading s)
     \<and> clickableMeshes s = [] \<and> handle (Click [roof_mesh]) s = Inr s"
proof -
  have "run [Click [roof_mesh], EnvLoaded] (init True 800 600) =
      Inr ((init True 800 600)\<lparr>scene_environment := True, loading := [ModelRequest]\<rparr>)"
    by (simp add: on_click_def intersectObjects_def init_fields on_env_loaded_def loadModel_def)
  with model_waits_for_environment [of "[Click [roof_mesh], EnvLoaded]" True 800 600]
  show ?thesis by (simp add: init_fields)
qed

section \<open>The clickable list\<close>

lemma known_names_eq:
  "known_names = [''genting.004'', ''Glass.009'', ''Material.137'', ''Material.136'']"
  by (simp add: known_names_def roofMaterialName_def otherMaterialColors_def)

text \<open>For a name that no member of \<^verbatim>\<open>Object.prototype\<close> bears, the load callback's test
  is membership in the tables.\<close>

lemma clickable_material_known:
  assumes "name mat \<notin> set objectPrototype"
  shows "clickable_material mat \<longleftrightarrow> name mat \<in> set known_names"
  using assms
  by (auto simp: clickable_material_def get_property_def known_names_eq roofMaterialName_def
      otherMaterialColors_def split: option.splits if_splits)

lemma count_push_matching:
  "count_list (push_matching heap child rs acc) m =
     count_list acc m
     + (if m = child then length (filter (\<lambda>r. clickable_material (heap r)) rs) else 0)"
  by (induction rs arbitrary: acc) auto

text \<open>One entry for each material that passes the test, for each visit of the mesh.\<close>

lemma count_tagged:
  "count_list (fold (tag_child heap) ms acc) m =
     count_list acc m
     + (if isMesh m
        then count_list ms m
             * length (filter (\<lambda>r. clickable_material (heap r)) (as_array (material m)))
        else 0)"
  by (induction ms arbitrary: acc) (auto simp: tag_child_def count_push_matching)

text \<open>Once the model is in the scene, no event changes the clickable list.\<close>

lemma clickableMeshes_stable:
  assumes "load_phase s" "scene_model s \<noteq> None" "run es s = Inr s'"
  shows "clickableMeshes s' = clickableMeshes s"
  using assms
proof (induction es arbitrary: s)
  case Nil
  then show ?case by simp
next
  case (Cons e es)
  from Cons.prems(3) obtain t where t: "handle e s = Inr t" "run es t = Inr s'"
    by (auto simp: and_then_Inr_iff)
  from handle_load_phase [OF t(1) Cons.prems(1)] Cons.prems(2)
  have "load_phase t" "clickableMeshes t = clickableMeshes s" "scene_model t \<noteq> None"
    by auto
  with Cons.IH [OF _ _ t(2)] show ?case by simp
qed

lemma attic_clickable:
  "clickable_material (attic_materials r)"
  by (simp add: clickable_material_def attic_materials_def roofMaterialName_def
      get_property_def otherMaterialColors_def objectPrototype_def)

text \<open>
  Claim C5 has a mesh in the clickable list exactly when one of its materials bears one of
  the four known names, and has the list fixed once the model is loaded. The list is fixed
  indeed. But the load callback tests a name by reading the colour table under it, and the
  read finds the members of \<^verbatim>\<open>Object.prototype\<close> too: the attic's only material is
  named \<^verbatim>\<open>constructor\<close>, which is none of the known names, and the load puts the
  attic in the list.
\<close>

theorem constructor_material_is_clickable:
  "as_array (material attic_mesh) = [20]
   \<and> name (attic_materials 20) = ''constructor''
   \<and> name (attic_materials 20) \<notin> set known_names
   \<and> run [EnvLoaded, ModelLoaded attic] (init True 800 600) =
       Inr ((init True 800 600)
         \<lparr>clickableMeshes := [attic_mesh],
          materials := attic_materials,
          scene_environment := True,
          scene_model := Some (gltf_scene attic),
          loading := []\<rparr>)"
proof -
  have "fold (tag_child attic_materials) (traverse (gltf_scene attic)) [] = [attic_mesh]"
    by (simp add: attic_def tag_child_def attic_mesh_def attic_clickable)
  moreover have "gltf_materials attic = attic_materials"
    by (simp add: attic_def)
  ultimately show ?thesis
    by (simp add: init_fields on_env_loaded_def loadModel_def on_model_loaded_def
        attic_mesh_def attic_materials_def known_names_eq)
qed

lemma shed_clickable:
  "clickable_material (shed_materials 21)" "clickable_material (shed_materials 22)"
  by (simp_all add: clickable_material_def shed_materials_def roofMaterialName_def
      get_property_def otherMaterialColors_def objectPrototype_def)

text \<open>
  Claim C10 has a mesh in the clickable list once for each of its materials with a known
  name. The list holds one entry for each material that passes the load callback's test,
  which the members of \<^verbatim>\<open>Object.prototype\<close> pass as well: of the shed's two materials
  one has a known name, and the load lists the shed twice.
\<close>

theorem builtin_name_counts_as_match:
  "as_array (material shed_mesh) = [21, 22]
   \<and> map (\<lambda>r. name (shed_materials r)) [21, 22] = [''Glass.009'', ''toString'']
   \<and> length (filter (\<lambda>r. name (shed_materials r) \<in> set known_names) [21, 22]) = 1
   \<and> run [EnvLoaded, ModelLoaded shed] (init True 800 600) =
       Inr ((init True 800 600)
         \<lparr>clickableMeshes := [shed_mesh, shed_mesh],
          materials := shed_materials,
          scene_environment := True,
          scene_model := Some (gltf_scene shed),
          loading := []\<rparr>)"
proof -
  have "fold (tag_child shed_materials) (traverse (gltf_scene shed)) [] = [shed_mesh, shed_mesh]"
    by (simp add: shed_def tag_child_def shed_mesh_def shed_clickable)
  moreover have "gltf_materials shed = shed_materials"
    by (simp add: shed_def)
  ultimately show ?thesis
    by (simp add: init_fields on_env_loaded_def loadModel_def on_model_loaded_def
        shed_mesh_def shed_materials_def known_names_eq)
qed

section \<open>The Escape key\<close>

lemma run_shown:
  "run [Click [porch_mesh], Click [roof_mesh, ground], Frame] (loaded True) =
     Inr ((loaded True)
       \<lparr>materials := house_materials
          (11 := \<lparr>name = ''Material.137'', color = ''#FFD700''\<rparr>,
           12 := \<lparr>name = ''Glass.009'', color = ''#87CEEB''\<rparr>,
           10 := \<lparr>name = ''genting.004'', color = ''#5CA9E9''\<rparr>),
        overlay := Some \<lparr>display = ''flex'', opacity = ''1''\<rparr>,
        materialInfoBox := \<lparr>display = ''block'', opacity = []\<rparr>,
        materialText := Str ''Title of obj: WINDOW'',
        frame_callbacks := [Animate]\<rparr>)"
  apply (simp add: click_porch)
  apply (simp add: on_click_def intersectObjects_def loaded_fields roof_mesh_def gable_mesh_def
      porch_mesh_def ground_def)
  apply (simp add: click_material_def Let_def loaded_fields house_materials_def
      roofMaterialName_def roofColor_def set_overlay_display_def requestAnimationFrame_def
      frame_def animate_def set_overlay_opacity_def)
  done

lemma shown_fields:
  "clickableMeshes shown = [roof_mesh, gable_mesh, porch_mesh, porch_mesh]"
  "name (materials shown 10) = ''genting.004''"
  "overlay shown = Some \<lparr>display = ''flex'', opacity = ''1''\<rparr>"
  "materialInfoBox shown = \<lparr>display = ''block'', opacity = []\<rparr>"
  "frame_callbacks shown = [Animate]"
  "timers shown = []"
  "now shown = 0"
  unfolding shown_def run_shown by (simp_all add: loaded_fields)

text \<open>Only the hiding callback writes the overlay's display.\<close>

lemma run_callback_hidden:
  assumes "overlay t = Some u" "display u = ''none''"
  shows "\<exists>t' u'. run_callback cb t = Inr t' \<and> overlay t' = Some u' \<and> display u' = ''none''"
  using assms
  by (cases cb)
     (auto simp: animate_def requestAnimationFrame_def set_overlay_display_def
        set_overlay_opacity_def)

lemma hide_among_callbacks:
  assumes ov: "overlay s \<noteq> None" and cb: "HideOverlay \<in> set cbs"
  shows "\<exists>s' u. forEach cbs run_callback s = Inr s' \<and> overlay s' = Some u \<and> display u = ''none''"
proof -
  from cb obtain before after where cbs: "cbs = before @ HideOverlay # after"
    by (auto dest: split_list)
  from callbacks_total [of s before] ov
  obtain s1 where s1: "forEach before run_callback s = Inr s1" by blast
  from callbacks_frame [OF s1] ov obtain u1 where u1: "overlay s1 = Some u1" by auto
  define s2 where "s2 = s1\<lparr>overlay := Some (u1\<lparr>display := ''none''\<rparr>)\<rparr>"
  have s2: "run_callback HideOverlay s1 = Inr s2"
    by (simp add: set_overlay_display_def u1 s2_def)
  let ?I = "\<lambda>t. \<exists>u. overlay t = Some u \<and> display u = ''none''"
  have "\<exists>s'. forEach after run_callback s2 = Inr s' \<and> ?I s'"
  proof (rule forEach_total)
    show "?I s2" by (simp add: s2_def)
  next
    fix x and t :: state
    assume "?I t"
    then show "\<exists>t'. run_callback x t = Inr t' \<and> ?I t'"
      using run_callback_hidden [of t _ x] by blast
  qed
  with s1 s2 show ?thesis
    unfolding cbs by (auto simp: forEach_append)
qed

text \<open>A timeout that hides the overlay does so when it falls due, whatever else happened.\<close>

lemma hide_when_due:
  assumes ov: "overlay s \<noteq> None" and timer: "(due, HideOverlay) \<in> set (timers s)"
    and es: "\<forall>e\<in>set es. \<forall>d'. e \<noteq> Elapse d'" and d: "due \<le> now s + d"
  shows "\<exists>s' u. run (es @ [Elapse d]) s = Inr s' \<and> overlay s' = Some u \<and> display u = ''none''"
  using assms
proof (induction es arbitrary: s)
  case Nil
  let ?t = "now s + d"
  let ?s = "s\<lparr>now := ?t, timers := filter (\<lambda>(due, cb). \<not> due \<le> ?t) (timers s)\<rparr>"
  from Nil.prems(2,4)
  have "HideOverlay \<in> set (map snd (filter (\<lambda>(due, cb). due \<le> ?t) (timers s)))"
    by force
  moreover from Nil.prems(1) have "overlay ?s \<noteq> None" by simp
  ultimately show ?case
    using hide_among_callbacks [of ?s "map snd (filter (\<lambda>(due, cb). due \<le> ?t) (timers s))"]
    by (auto simp: elapse_def Let_def)
next
  case (Cons e es)
  from Cons.prems(1) have "callbacks_guarded s" by (auto simp: callbacks_guarded_def)
  from handle_guarded [OF this] obtain t where t: "handle e s = Inr t" by blast
  from handle_frame [OF t] Cons.prems
  have "overlay t \<noteq> None" "(due, HideOverlay) \<in> set (timers t)"
    "\<forall>e\<in>set es. \<forall>d'. e \<noteq> Elapse d'" "due \<le> now t + d"
    by auto
  from Cons.IH [OF this] t show ?case by simp
qed

lemma on_keydown_escape:
  assumes "overlay s = Some st" "display st = ''flex''"
  shows "on_keydown ''Escape'' s =
    Inr (s\<lparr>overlay := Some (st\<lparr>opacity := ''0''\<rparr>),
           timers := timers s @ [(now s + 300, HideOverlay)],
           materialInfoBox :=
             (if display (materialInfoBox s) = ''block''
              then (materialInfoBox s)\<lparr>display := ''none''\<rparr> else materialInfoBox s)\<rparr>)"
  using assms by (simp add: on_keydown_def set_overlay_opacity_def setTimeout_def)

text \<open>
  Claim C4. An Escape press while the overlay is displayed (\<^verbatim>\<open>flex\<close>) sets its opacity
  to \<^verbatim>\<open>0\<close> at once, leaves its display as it is and sets a timeout 300 ms ahead; when
  300 ms or more have passed, whatever other events came in between, the overlay's display
  is \<^verbatim>\<open>none\<close>, and with no earlier timeout pending it is not changed before. The info
  box, if displayed as a block, is hidden at once; otherwise it is left alone.
\<close>

theorem escape_hides_panels:
  assumes ov: "overlay s = Some st" and vis: "display st = ''flex''"
  shows "\<exists>s1. handle (KeyDown ''Escape'') s = Inr s1
     \<and> overlay s1 = Some (st\<lparr>opacity := ''0''\<rparr>)
     \<and> timers s1 = timers s @ [(now s + 300, HideOverlay)]
     \<and> (display (materialInfoBox s) = ''block'' \<longrightarrow> display (materialInfoBox s1) = ''none'')
     \<and> (display (materialInfoBox s) \<noteq> ''block'' \<longrightarrow> materialInfoBox s1 = materialInfoBox s)
     \<and> (\<forall>es d. (\<forall>e\<in>set es. \<forall>d'. e \<noteq> Elapse d') \<and> 300 \<le> d \<longrightarrow>
           (\<exists>s2 st2. run (es @ [Elapse d]) s1 = Inr s2
              \<and> overlay s2 = Some st2 \<and> display st2 = ''none''))
     \<and> (timers s = [] \<longrightarrow>
          (\<forall>d<300. \<exists>s2. handle (Elapse d) s1 = Inr s2 \<and> overlay s2 = overlay s1))"
proof -
  define s1 where "s1 = s\<lparr>overlay := Some (st\<lparr>opacity := ''0''\<rparr>),
           timers := timers s @ [(now s + 300, HideOverlay)],
           materialInfoBox :=
             (if display (materialInfoBox s) = ''block''
              then (materialInfoBox s)\<lparr>display := ''none''\<rparr> else materialInfoBox s)\<rparr>"
  have s1: "handle (KeyDown ''Escape'') s = Inr s1"
    by (simp add: on_keydown_escape [OF ov vis] s1_def)
  have later: "\<exists>s2 st2. run (es @ [Elapse d]) s1 = Inr s2
      \<and> overlay s2 = Some st2 \<and> display st2 = ''none''"
    if "\<forall>e\<in>set es. \<forall>d'. e \<noteq> Elapse d'" "300 \<le> d" for es d
  proof (rule hide_when_due [OF _ _ that(1)])
    show "overlay s1 \<noteq> None" by (simp add: s1_def)
    show "(now s + 300, HideOverlay) \<in> set (timers s1)" by (simp add: s1_def)
    show "now s + 300 \<le> now s1 + d" using that(2) by (simp add: s1_def)
  qed
  have sooner: "\<exists>s2. handle (Elapse d) s1 = Inr s2 \<and> overlay s2 = overlay s1"
    if "timers s = []" "d < 300" for d
    using that by (simp add: elapse_def Let_def s1_def)
  show ?thesis
  proof (rule exI [of _ s1], intro conjI)
    show "handle (KeyDown ''Escape'') s = Inr s1" by (rule s1)
    show "overlay s1 = Some (st\<lparr>opacity := ''0''\<rparr>)" by (simp add: s1_def)
    show "timers s1 = timers s @ [(now s + 300, HideOverlay)]" by (simp add: s1_def)
    show "display (materialInfoBox s) = ''block'' \<longrightarrow> display (materialInfoBox s1) = ''none''"
      by (simp add: s1_def)
    show "display (materialInfoBox s) \<noteq> ''block'' \<longrightarrow> materialInfoBox s1 = materialInfoBox s"
      by (simp add: s1_def)
    show "\<forall>es d. (\<forall>e\<in>set es. \<forall>d'. e \<noteq> Elapse d') \<and> 300 \<le> d \<longrightarrow>
           (\<exists>s2 st2. run (es @ [Elapse d]) s1 = Inr s2
              \<and> overlay s2 = Some st2 \<and> display st2 = ''none'')"
      using later by blast
    show "timers s = [] \<longrightarrow>
          (\<forall>d<300. \<exists>s2. handle (Elapse d) s1 = Inr s2 \<and> overlay s2 = overlay s1)"
      using sooner by blast
  qed
qed

theorem escape_hides_panels_witness:
  "overlay shown = Some \<lparr>display = ''flex'', opacity = ''1''\<rparr>
   \<and> display (materialInfoBox shown) = ''block''
   \<and> timers shown = []
   \<and> (\<exists>s1. handle (KeyDown ''Escape'') shown = Inr s1
        \<and> overlay s1 = Some \<lparr>display = ''flex'', opacity = ''0''\<rparr>
        \<and> timers s1 = [(300, HideOverlay)]
        \<and> display (materialInfoBox s1) = ''none''
        \<and> (\<exists>s2 st2. run ([Click [roof_mesh, ground], Frame] @ [Elapse 300]) s1 = Inr s2
              \<and> overlay s2 = Some st2 \<and> display st2 = ''none'')
        \<and> (\<exists>s2. handle (Elapse 299) s1 = Inr s2 \<and> overlay s2 = overlay s1))"
proof -
  have vis: "display \<lparr>display = ''flex'', opacity = ''1''\<rparr> = ''flex''" by simp
  from escape_hides_panels [OF shown_fields(3) vis]
  obtain s1 where s1: "handle (KeyDown ''Escape'') shown = Inr s1"
    and ov: "overlay s1 = Some (\<lparr>display = ''flex'', opacity = ''1''\<rparr>\<lparr>opacity := ''0''\<rparr>)"
    and tm: "timers s1 = timers shown @ [(now shown + 300, HideOverlay)]"
    and box: "display (materialInfoBox shown) = ''block'' \<longrightarrow>
        display (materialInfoBox s1) = ''none''"
    and later: "\<forall>es d. (\<forall>e\<in>set es. \<forall>d'. e \<noteq> Elapse d') \<and> 300 \<le> d \<longrightarrow>
           (\<exists>s2 st2. run (es @ [Elapse d]) s1 = Inr s2
              \<and> overlay s2 = Some st2 \<and> display st2 = ''none'')"
    and sooner: "timers shown = [] \<longrightarrow>
          (\<forall>d<300. \<exists>s2. handle (Elapse d) s1 = Inr s2 \<and> overlay s2 = overlay s1)"
    by blast
  have "(\<forall>e\<in>set [Click [roof_mesh, ground], Frame]. \<forall>d'. e \<noteq> Elapse d') \<and> (300::nat) \<le> 300"
    by simp
  with later
  have a: "\<exists>s2 st2. run ([Click [roof_mesh, ground], Frame] @ [Elapse 300]) s1 = Inr s2
              \<and> overlay s2 = Some st2 \<and> display st2 = ''none''"
    by blast
  from sooner shown_fields(6)
  have b: "\<exists>s2. handle (Elapse 299) s1 = Inr s2 \<and> overlay s2 = overlay s1"
    by simp
  from box have c: "display (materialInfoBox s1) = ''none''" by (simp add: shown_fields)
  from tm have d: "timers s1 = [(300, HideOverlay)]" by (simp add: shown_fields)
  from ov have e: "overlay s1 = Some \<lparr>display = ''flex'', opacity = ''0''\<rparr>" by simp
  from s1 a b c d e have "\<exists>s1. handle (KeyDown ''Escape'') shown = Inr s1
        \<and> overlay s1 = Some \<lparr>display = ''flex'', opacity = ''0''\<rparr>
        \<and> timers s1 = [(300, HideOverlay)]
        \<and> display (materialInfoBox s1) = ''none''
        \<and> (\<exists>s2 st2. run ([Click [roof_mesh, ground], Frame] @ [Elapse 300]) s1 = Inr s2
              \<and> overlay s2 = Some st2 \<and> display st2 = ''none'')
        \<and> (\<exists>s2. handle (Elapse 299) s1 = Inr s2 \<and> overlay s2 = overlay s1)"
    by - (rule exI [of _ s1], simp)
  then show ?thesis by (simp add: shown_fields)
qed

section \<open>Showing and hiding in quick succession\<close>

lemma shown_eq:
  "shown = (loaded True)
       \<lparr>materials := house_materials
          (11 := \<lparr>name = ''Material.137'', color = ''#FFD700''\<rparr>,
           12 := \<lparr>name = ''Glass.009'', color = ''#87CEEB''\<rparr>,
           10 := \<lparr>name = ''genting.004'', color = ''#5CA9E9''\<rparr>),
        overlay := Some \<lparr>display = ''flex'', opacity = ''1''\<rparr>,
        materialInfoBox := \<lparr>display = ''block'', opacity = []\<rparr>,
        materialText := Str ''Title of obj: WINDOW'',
        frame_callbacks := [Animate]\<rparr>"
  unfolding shown_def run_shown by simp

text \<open>Handlers queue no callbacks but \<^verbatim>\<open>animate\<close> and the revealing one for a frame.\<close>

lemma handle_callbacks_kind:
  assumes "handle e s = Inr s'"
  shows "set (frame_callbacks s') \<subseteq> {Animate, RevealOverlay} \<union> set (frame_callbacks s)"
proof (cases e)
  case (Click ray)
  with assms on_click_frame [of ray s s'] show ?thesis by auto
next
  case (CloseClick ray)
  with assms on_click_frame [of ray "on_close s" s'] show ?thesis
    by (auto simp: on_close_def)
next
  case (KeyDown key)
  with assms on_keydown_frame [of key s s'] show ?thesis by auto
next
  case (Resize w h)
  with assms show ?thesis by (auto simp: on_resize_def Let_def)
next
  case EnvLoaded
  with assms show ?thesis
    by (auto simp: on_env_loaded_def loadModel_def split: if_splits)
next
  case (ModelLoaded g)
  with assms show ?thesis
    by (auto simp: on_model_loaded_def split: if_splits)
next
  case Frame
  with assms frame_frame [of s s'] show ?thesis by auto
next
  case (Elapse d)
  with assms elapse_frame [of d s s'] show ?thesis by auto
qed

lemma run_callbacks_kind:
  assumes "run es s = Inr s'"
  shows "set (frame_callbacks s') \<subseteq> {Animate, RevealOverlay} \<union> set (frame_callbacks s)"
  using assms
proof (induction es arbitrary: s)
  case Nil
  then show ?case by auto
next
  case (Cons e es)
  from Cons.prems obtain t where t: "handle e s = Inr t" "run es t = Inr s'"
    by (auto simp: and_then_Inr_iff)
  from handle_callbacks_kind [OF t(1)] Cons.IH [OF t(2)] show ?case by auto
qed

text \<open>A click leaves the overlay's opacity alone, and its display unless it sets it to
  \<^verbatim>\<open>flex\<close>.\<close>

lemma on_click_display:
  assumes "on_click ray t = Inr t'" and "overlay t = Some u"
  shows "\<exists>u'. overlay t' = Some u' \<and> opacity u' = opacity u
     \<and> (display u' = display u \<or> display u' = ''flex'')"
proof (cases "intersectObjects (clickableMeshes t) ray")
  case Nil
  with assms show ?thesis by (auto simp: on_click_def)
next
  case (Cons clicked rest)
  let ?I = "\<lambda>t'. \<exists>u'. overlay t' = Some u' \<and> opacity u' = opacity u
     \<and> (display u' = display u \<or> display u' = ''flex'')"
  from assms(1) Cons
  have loop: "forEach (as_array (material clicked)) click_material t = Inr t'"
    by (simp add: on_click_hit)
  show ?thesis
  proof (rule forEach_invariant [OF loop, where I = ?I])
    show "?I t" using assms(2) by simp
  next
    fix x and a b :: state
    assume "?I a" and step: "click_material x a = Inr b"
    then obtain v where v: "overlay a = Some v" "opacity v = opacity u"
      "display v = display u \<or> display v = ''flex''" by blast
    from click_material_overlay [OF v(1), of x] step v
    show "?I b" by auto
  qed
qed

lemma callbacks_keep_display:
  assumes "forEach cbs run_callback t = Inr t'" and "HideOverlay \<notin> set cbs"
    and "overlay t = Some u"
  shows "\<exists>u'. overlay t' = Some u' \<and> display u' = display u"
proof (rule forEach_invariant [OF assms(1), where I = "\<lambda>t'. \<exists>u'. overlay t' = Some u' \<and> display u' = display u"])
  show "\<exists>u'. overlay t = Some u' \<and> display u' = display u" using assms(3) by simp
next
  fix cb and a b :: state
  assume "cb \<in> set cbs" and "\<exists>u'. overlay a = Some u' \<and> display u' = display u"
    and "run_callback cb a = Inr b"
  with assms(2) show "\<exists>u'. overlay b = Some u' \<and> display u' = display u"
    by (cases cb)
       (auto simp: animate_def requestAnimationFrame_def set_overlay_opacity_def)
qed

text \<open>
  The overlay is being shown: displayed, the revealing callback waiting for the frame, and
  nothing waiting that would hide it.
\<close>

lemma clicks_keep_showing:
  assumes "\<exists>u. overlay t = Some u \<and> display u = ''flex''"
    and "RevealOverlay \<in> set (frame_callbacks t)"
    and "HideOverlay \<notin> set (frame_callbacks t)"
    and "timers t = []"
  shows "\<exists>t'. run (map Click rays) t = Inr t'
     \<and> (\<exists>u. overlay t' = Some u \<and> display u = ''flex'')
     \<and> RevealOverlay \<in> set (frame_callbacks t')
     \<and> HideOverlay \<notin> set (frame_callbacks t')
     \<and> timers t' = []"
  using assms
proof (induction rays arbitrary: t)
  case Nil
  then show ?case by simp
next
  case (Cons ray rays)
  from on_click_total obtain a where a: "on_click ray t = Inr a" ..
  from Cons.prems(1) obtain u where u: "overlay t = Some u" "display u = ''flex''" by blast
  from on_click_display [OF a u(1)] u(2)
  have 1: "\<exists>u. overlay a = Some u \<and> display u = ''flex''" by auto
  from on_click_frame [OF a] Cons.prems
  have 2: "RevealOverlay \<in> set (frame_callbacks a)"
    and 3: "HideOverlay \<notin> set (frame_callbacks a)"
    and 4: "timers a = []" by auto
  from Cons.IH [OF 1 2 3 4] a show ?case by simp
qed

lemma showing_ends_shown:
  assumes "\<exists>u. overlay t = Some u \<and> display u = ''flex''"
    and "RevealOverlay \<in> set (frame_callbacks t)"
    and "HideOverlay \<notin> set (frame_callbacks t)"
    and "timers t = []"
  shows "\<exists>t'. run [Frame, Elapse d] t = Inr t'
     \<and> overlay t' = Some \<lparr>display = ''flex'', opacity = ''1''\<rparr>"
proof -
  from assms(1) obtain u where u: "overlay t = Some u" "display u = ''flex''" by blast
  let ?t = "t\<lparr>frame_callbacks := []\<rparr>"
  from reveal_among_callbacks [of ?t "frame_callbacks t"] u(1) assms(2)
  obtain a v where a: "forEach (frame_callbacks t) run_callback ?t = Inr a"
    and v: "overlay a = Some v" "opacity v = ''1''" by auto
  from callbacks_keep_display [OF a assms(3), of u] u v
  have "display v = ''flex''" by simp
  with v have ov: "overlay a = Some \<lparr>display = ''flex'', opacity = ''1''\<rparr>"
    by (cases v) simp
  from callbacks_frame [OF a] assms(4) have "timers a = []" by simp
  then have "elapse d a = Inr (a\<lparr>now := now a + d, timers := []\<rparr>)"
    by (simp add: elapse_def Let_def)
  with a ov show ?thesis by (simp add: frame_def)
qed

text \<open>
  Claim C8, as amended. In every state that the page with the overlay can reach, the last
  operation decides as long as no timeout is pending when the overlay is shown: with no
  timeout pending, a click whose nearest hit is the roof mesh, followed by any further
  clicks, the next paint frame and any passing of time, ends with the overlay displayed
  (\<^verbatim>\<open>flex\<close>) at opacity \<^verbatim>\<open>1\<close>; and an Escape press while the overlay is
  displayed, followed by any events and 300 ms or more, ends with its display
  \<^verbatim>\<open>none\<close>. The script never cancels a timeout, so nothing is said of a click made
  while one is pending.
\<close>

theorem last_operation_wins_without_pending_hide:
  assumes reach: "run es0 (init True w h) = Inr s"
  shows "(\<forall>ray clicked rest r rays d.
            timers s = []
            \<and> intersectObjects (clickableMeshes s) ray = clicked # rest
            \<and> r \<in> set (as_array (material clicked))
            \<and> name (materials s r) = roofMaterialName \<longrightarrow>
            (\<exists>s'. run (Click ray # map Click rays @ [Frame, Elapse d]) s = Inr s'
               \<and> overlay s' = Some \<lparr>display = ''flex'', opacity = ''1''\<rparr>))
     \<and> (\<forall>st es d.
            overlay s = Some st \<and> display st = ''flex''
            \<and> (\<forall>e\<in>set es. \<forall>d'. e \<noteq> Elapse d') \<and> 300 \<le> d \<longrightarrow>
            (\<exists>s' st'. run (KeyDown ''Escape'' # es @ [Elapse d]) s = Inr s'
               \<and> overlay s' = Some st' \<and> display st' = ''none''))"
proof (intro conjI allI impI)
  fix ray clicked rest r and rays :: "object3d list list" and d :: nat
  assume a: "timers s = []
            \<and> intersectObjects (clickableMeshes s) ray = clicked # rest
            \<and> r \<in> set (as_array (material clicked))
            \<and> name (materials s r) = roofMaterialName"
  from run_invariants [OF init_guarded init_load_phase, of es0 True w h] reach
  obtain st where st: "overlay s = Some st" by (auto simp: init_fields)
  from run_callbacks_kind [OF reach] have nohide: "HideOverlay \<notin> set (frame_callbacks s)"
    by (auto simp: init_fields)
  from a click_reveals_overlay [of s ray clicked rest r st] st
  obtain s1 where s1: "on_click ray s = Inr s1"
    "overlay s1 = Some (st\<lparr>display := ''flex''\<rparr>)"
    "RevealOverlay \<in> set (frame_callbacks s1)" by blast
  from on_click_frame [OF s1(1)] a nohide
  have "HideOverlay \<notin> set (frame_callbacks s1)" "timers s1 = []" by auto
  with s1 clicks_keep_showing [of s1 rays]
  obtain s2 where s2: "run (map Click rays) s1 = Inr s2"
    "\<exists>u. overlay s2 = Some u \<and> display u = ''flex''"
    "RevealOverlay \<in> set (frame_callbacks s2)"
    "HideOverlay \<notin> set (frame_callbacks s2)"
    "timers s2 = []" by auto
  from showing_ends_shown [OF s2(2-5), of d]
  obtain s3 where s3: "run [Frame, Elapse d] s2 = Inr s3"
    "overlay s3 = Some \<lparr>display = ''flex'', opacity = ''1''\<rparr>" by blast
  from s1(1) s2(1) s3(1)
  have "run (Click ray # map Click rays @ [Frame, Elapse d]) s = Inr s3"
    by (simp add: run_append)
  with s3(2)
  show "\<exists>s'. run (Click ray # map Click rays @ [Frame, Elapse d]) s = Inr s'
               \<and> overlay s' = Some \<lparr>display = ''flex'', opacity = ''1''\<rparr>" by blast
next
  fix st es and d :: nat
  assume a: "overlay s = Some st \<and> display st = ''flex''
            \<and> (\<forall>e\<in>set es. \<forall>d'. e \<noteq> Elapse d') \<and> 300 \<le> d"
  define s1 where "s1 = s\<lparr>overlay := Some (st\<lparr>opacity := ''0''\<rparr>),
           timers := timers s @ [(now s + 300, HideOverlay)],
           materialInfoBox :=
             (if display (materialInfoBox s) = ''block''
              then (materialInfoBox s)\<lparr>display := ''none''\<rparr> else materialInfoBox s)\<rparr>"
  from a have s1: "handle (KeyDown ''Escape'') s = Inr s1"
    by (simp add: on_keydown_escape s1_def)
  have "\<exists>s' st'. run (es @ [Elapse d]) s1 = Inr s' \<and> overlay s' = Some st'
      \<and> display st' = ''none''"
  proof (rule hide_when_due)
    show "overlay s1 \<noteq> None" by (simp add: s1_def)
    show "(now s + 300, HideOverlay) \<in> set (timers s1)" by (simp add: s1_def)
    show "\<forall>e\<in>set es. \<forall>d'. e \<noteq> Elapse d'" using a by simp
    show "now s + 300 \<le> now s1 + d" using a by (simp add: s1_def)
  qed
  with s1
  show "\<exists>s' st'. run (KeyDown ''Escape'' # es @ [Elapse d]) s = Inr s'
               \<and> overlay s' = Some st' \<and> display st' = ''none''" by simp
qed

lemma reach_shown:
  "run [EnvLoaded, ModelLoaded house, Click [porch_mesh], Click [roof_mesh, ground], Frame]
     (init True 800 600) = Inr shown"
proof -
  have "run ([EnvLoaded, ModelLoaded house]
        @ [Click [porch_mesh], Click [roof_mesh, ground], Frame]) (init True 800 600) =
      run [Click [porch_mesh], Click [roof_mesh, ground], Frame] (loaded True)"
    unfolding run_append run_loaded loaded_eq by simp
  also have "\<dots> = Inr shown"
    unfolding run_shown shown_eq ..
  finally show ?thesis by simp
qed

lemma reclick_setting:
  "timers shown = []
   \<and> intersectObjects (clickableMeshes shown) [roof_mesh, ground] = [roof_mesh]
   \<and> 10 \<in> set (as_array (material roof_mesh))
   \<and> name (materials shown 10) = roofMaterialName"
  by (simp add: shown_fields intersectObjects_def roof_mesh_def gable_mesh_def porch_mesh_def
      ground_def roofMaterialName_def)

theorem last_operation_wins_without_pending_hide_witness:
  "run [EnvLoaded, ModelLoaded house, Click [porch_mesh], Click [roof_mesh, ground], Frame]
     (init True 800 600) = Inr shown
   \<and> timers shown = []
   \<and> intersectObjects (clickableMeshes shown) [roof_mesh, ground] = [roof_mesh]
   \<and> 10 \<in> set (as_array (material roof_mesh))
   \<and> name (materials shown 10) = roofMaterialName
   \<and> (\<exists>s'. run (Click [roof_mesh, ground] # map Click [[roof_mesh, ground], [ground]]
                  @ [Frame, Elapse 1000]) shown = Inr s'
         \<and> overlay s' = Some \<lparr>display = ''flex'', opacity = ''1''\<rparr>)
   \<and> overlay shown = Some \<lparr>display = ''flex'', opacity = ''1''\<rparr>
   \<and> (\<exists>s' st'. run (KeyDown ''Escape''
                  # [KeyDown ''Escape'', Click [roof_mesh, ground], Frame] @ [Elapse 300])
                  shown = Inr s'
         \<and> overlay s' = Some st' \<and> display st' = ''none'')"
proof -
  note both = last_operation_wins_without_pending_hide [OF reach_shown]
  from both have "timers shown = []
            \<and> intersectObjects (clickableMeshes shown) [roof_mesh, ground] = [roof_mesh]
            \<and> 10 \<in> set (as_array (material roof_mesh))
            \<and> name (materials shown 10) = roofMaterialName \<longrightarrow>
            (\<exists>s'. run (Click [roof_mesh, ground] # map Click [[roof_mesh, ground], [ground]]
                  @ [Frame, Elapse 1000]) shown = Inr s'
               \<and> overlay s' = Some \<lparr>display = ''flex'', opacity = ''1''\<rparr>)"
    by blast
  with reclick_setting
  have a: "\<exists>s'. run (Click [roof_mesh, ground] # map Click [[roof_mesh, ground], [ground]]
                  @ [Frame, Elapse 1000]) shown = Inr s'
               \<and> overlay s' = Some \<lparr>display = ''flex'', opacity = ''1''\<rparr>"
    by (rule rev_mp)
  have pre: "overlay shown = Some \<lparr>display = ''flex'', opacity = ''1''\<rparr>
      \<and> display \<lparr>display = ''flex'', opacity = ''1''\<rparr> = ''flex''
      \<and> (\<forall>e\<in>set [KeyDown ''Escape'', Click [roof_mesh, ground], Frame]. \<forall>d'. e \<noteq> Elapse d')
      \<and> (300::nat) \<le> 300"
    by (simp add: shown_fields)
  from both have "overlay shown = Some \<lparr>display = ''flex'', opacity = ''1''\<rparr>
      \<and> display \<lparr>display = ''flex'', opacity = ''1''\<rparr> = ''flex''
      \<and> (\<forall>e\<in>set [KeyDown ''Escape'', Click [roof_mesh, ground], Frame]. \<forall>d'. e \<noteq> Elapse d')
      \<and> (300::nat) \<le> 300 \<longrightarrow>
       (\<exists>s' st'. run (KeyDown ''Escape''
                  # [KeyDown ''Escape'', Click [roof_mesh, ground], Frame] @ [Elapse 300])
                  shown = Inr s'
         \<and> overlay s' = Some st' \<and> display st' = ''none'')"
    by blast
  with pre
  have b: "\<exists>s' st'. run (KeyDown ''Escape''
                  # [KeyDown ''Escape'', Click [roof_mesh, ground], Frame] @ [Elapse 300])
                  shown = Inr s'
         \<and> overlay s' = Some st' \<and> display st' = ''none''"
    by (rule rev_mp)
  from reach_shown reclick_setting a pre b show ?thesis by (intro conjI) simp_all
qed

text \<open>
  The claim as it stands lets no timeout of an earlier hide override a later show. With
  both panels visible, Escape is pressed, the roof is clicked again 100 ms later and a
  frame is painted: the overlay is visible again. 200 ms later the timeout of the Escape
  press runs and hides it, though the click was the last operation.
\<close>

lemma escape_then_reclick:
  "run [KeyDown ''Escape'', Elapse 100, Click [roof_mesh, ground], Frame] shown =
     Inr (shown
       \<lparr>materialInfoBox := \<lparr>display = ''none'', opacity = []\<rparr>,
        timers := [(300, HideOverlay)],
        now := 100,
        frame_callbacks := [Animate]\<rparr>)"
  unfolding shown_eq
  apply (simp add: on_keydown_def set_overlay_opacity_def setTimeout_def loaded_fields
      elapse_def Let_def)
  apply (simp add: on_click_def intersectObjects_def loaded_fields roof_mesh_def gable_mesh_def
      porch_mesh_def ground_def)
  apply (simp add: click_material_def Let_def loaded_fields house_materials_def
      roofMaterialName_def roofColor_def set_overlay_display_def requestAnimationFrame_def
      frame_def animate_def set_overlay_opacity_def)
  done

lemma escape_then_reclick_then_wait:
  "run [KeyDown ''Escape'', Elapse 100, Click [roof_mesh, ground], Frame, Elapse 200] shown =
     Inr (shown
       \<lparr>overlay := Some \<lparr>display = ''none'', opacity = ''1''\<rparr>,
        materialInfoBox := \<lparr>display = ''none'', opacity = []\<rparr>,
        timers := [],
        now := 300,
        frame_callbacks := [Animate]\<rparr>)"
proof -
  have "run ([KeyDown ''Escape'', Elapse 100, Click [roof_mesh, ground], Frame] @ [Elapse 200])
      shown =
     Inr (shown
       \<lparr>overlay := Some \<lparr>display = ''none'', opacity = ''1''\<rparr>,
        materialInfoBox := \<lparr>display = ''none'', opacity = []\<rparr>,
        timers := [],
        now := 300,
        frame_callbacks := [Animate]\<rparr>)"
    unfolding run_append escape_then_reclick
    by (simp add: elapse_def Let_def set_overlay_display_def shown_fields)
  then show ?thesis by simp
qed

theorem pending_hide_overrides_later_show:
  "overlay shown = Some \<lparr>display = ''flex'', opacity = ''1''\<rparr>
   \<and> intersectObjects (clickableMeshes shown) [roof_mesh, ground] = [roof_mesh]
   \<and> overlay (projr (run [KeyDown ''Escape'', Elapse 100, Click [roof_mesh, ground], Frame]
         shown)) = Some \<lparr>display = ''flex'', opacity = ''1''\<rparr>
   \<and> \<not> isl (run [KeyDown ''Escape'', Elapse 100, Click [roof_mesh, ground], Frame, Elapse 200]
         shown)
   \<and> overlay (projr (run [KeyDown ''Escape'', Elapse 100, Click [roof_mesh, ground], Frame,
         Elapse 200] shown)) = Some \<lparr>display = ''none'', opacity = ''1''\<rparr>"
  unfolding escape_then_reclick escape_then_reclick_then_wait
  by (simp add: shown_fields intersectObjects_def roof_mesh_def gable_mesh_def porch_mesh_def
      ground_def)

section \<open>Clicks off the clickable list\<close>

lemma clickable_material_name:
  "name a = name b \<Longrightarrow> clickable_material a = clickable_material b"
  by (simp add: clickable_material_def)

lemma set_push_matching:
  "set (push_matching heap child rs acc) =
     set acc \<union> (if \<exists>r\<in>set rs. clickable_material (heap r) then {child} else {})"
  by (induction rs arbitrary: acc) auto

lemma set_tagged:
  "set (fold (tag_child heap) ms acc) =
     set acc \<union> {d \<in> set ms. isMesh d
        \<and> (\<exists>r\<in>set (as_array (material d)). clickable_material (heap r))}"
  by (induction ms arbitrary: acc) (auto simp: tag_child_def set_push_matching)

text \<open>What is below an object of a subtree is in the subtree.\<close>

lemma traverse_subtree:
  "d \<in> set (traverse m) \<Longrightarrow> set (traverse d) \<subseteq> set (traverse m)"
proof (induction m rule: traverse.induct)
  case (1 u b mt cs)
  show ?case
  proof (cases "d = Object3D u b mt cs")
    case True
    then show ?thesis by simp
  next
    case False
    with "1.prems" obtain c where c: "c \<in> set cs" "d \<in> set (traverse c)" by auto
    from "1.IH" [OF c] c(1) show ?thesis by auto
  qed
qed

lemma forEach_idle:
  assumes "\<forall>x\<in>set xs. f x s = Inr s"
  shows "forEach xs f s = Inr s"
  using assms by (induction xs) simp_all

text \<open>Every handler but the model's load callback keeps the clickable list and the names
  of the materials.\<close>

lemma handle_names:
  assumes "handle e s = Inr s'"
  shows "(\<exists>g. e = ModelLoaded g \<and> ModelRequest \<in> set (loading s))
     \<or> clickableMeshes s' = clickableMeshes s
       \<and> (\<forall>x. name (materials s' x) = name (materials s x))"
proof (cases e)
  case (Click ray)
  with assms on_click_frame [of ray s s'] show ?thesis by auto
next
  case (CloseClick ray)
  with assms on_click_frame [of ray "on_close s" s'] show ?thesis
    by (auto simp: on_close_def)
next
  case (KeyDown key)
  with assms on_keydown_frame [of key s s'] show ?thesis by auto
next
  case (Resize w h)
  with assms show ?thesis by (auto simp: on_resize_def Let_def)
next
  case EnvLoaded
  with assms show ?thesis
    by (auto simp: on_env_loaded_def loadModel_def split: if_splits)
next
  case (ModelLoaded g)
  with assms show ?thesis by (auto split: if_splits)
next
  case Frame
  with assms frame_frame [of s s'] show ?thesis by auto
next
  case (Elapse d)
  with assms elapse_frame [of d s s'] show ?thesis by auto
qed

lemma loaded_descendants_tagged:
  assumes "clickableMeshes s = []"
  shows "descendants_tagged (on_model_loaded g s)"
  unfolding descendants_tagged_def
proof (intro ballI impI)
  fix m d
  let ?s = "on_model_loaded g s"
  assume m: "m \<in> set (clickableMeshes ?s)" and d: "d \<in> set (traverse m)"
    and tag: "isMesh d
      \<and> (\<exists>r\<in>set (as_array (material d)). clickable_material (materials ?s r))"
  from m assms have "m \<in> set (traverse (gltf_scene g))"
    by (simp add: on_model_loaded_def set_tagged)
  from traverse_subtree [OF this] d have "d \<in> set (traverse (gltf_scene g))" by auto
  with tag assms show "d \<in> set (clickableMeshes ?s)"
    by (simp add: on_model_loaded_def set_tagged)
qed

lemma handle_descendants_tagged:
  assumes step: "handle e s = Inr s'" and phase: "load_phase s"
    and tagged: "descendants_tagged s"
  shows "descendants_tagged s'"
proof (cases "\<exists>g. e = ModelLoaded g \<and> ModelRequest \<in> set (loading s)")
  case True
  then obtain g where g: "e = ModelLoaded g" "ModelRequest \<in> set (loading s)" by blast
  with phase have "clickableMeshes s = []" by (auto simp: load_phase_def)
  then have "clickableMeshes (s\<lparr>loading := remove1 ModelRequest (loading s)\<rparr>) = []" by simp
  from loaded_descendants_tagged [OF this, of g] step g show ?thesis by simp
next
  case False
  with handle_names [OF step]
  have same: "clickableMeshes s' = clickableMeshes s"
    "\<And>x. name (materials s' x) = name (materials s x)" by auto
  have "clickable_material (materials s' r) = clickable_material (materials s r)" for r
    by (rule clickable_material_name) (rule same(2))
  with tagged same(1) show ?thesis by (simp add: descendants_tagged_def)
qed

lemma run_descendants_tagged:
  assumes "run es s = Inr s'" and "load_phase s" and "descendants_tagged s"
  shows "descendants_tagged s'"
  using assms
proof (induction es arbitrary: s)
  case Nil
  then show ?case by simp
next
  case (Cons e es)
  from Cons.prems(1) obtain t where t: "handle e s = Inr t" "run es t = Inr s'"
    by (auto simp: and_then_Inr_iff)
  from handle_load_phase(1) [OF t(1) Cons.prems(2)]
    handle_descendants_tagged [OF t(1) Cons.prems(2,3)]
  show ?case by (rule Cons.IH [OF t(2)])
qed

lemma init_descendants_tagged: "descendants_tagged (init present w h)"
  by (simp add: descendants_tagged_def init_fields)

text \<open>
  Claim C3, as amended. In every state the page can reach, a click whose ray meets no mesh
  of the clickable list, and below the meshes of the list nothing but meshes, leaves the
  whole state as it was: no material changes colour, and neither the overlay nor the info
  box changes its visibility. The ray caster searches the descendants of the listed meshes
  too; a mesh it finds there that is not listed has no material the handler acts on.
\<close>

theorem click_off_the_clickable_set:
  assumes reach: "run es (init present w h) = Inr s"
    and miss: "\<forall>x\<in>set ray. x \<notin> set (clickableMeshes s)
        \<and> (x \<in> set (concat (map traverse (clickableMeshes s))) \<longrightarrow> isMesh x)"
  shows "on_click ray s = Inr s"
proof (cases "intersectObjects (clickableMeshes s) ray")
  case Nil
  then show ?thesis by (rule on_click_miss)
next
  case (Cons clicked rest)
  then have "clicked \<in> set (intersectObjects (clickableMeshes s) ray)" by simp
  then have hit: "clicked \<in> set ray"
    "clicked \<in> set (concat (map traverse (clickableMeshes s)))"
    by (simp_all add: intersectObjects_def)
  with miss have off: "clicked \<notin> set (clickableMeshes s)" and mesh: "isMesh clicked" by auto
  from hit(2) obtain m where m: "m \<in> set (clickableMeshes s)" "clicked \<in> set (traverse m)"
    by auto
  from run_descendants_tagged [OF reach init_load_phase init_descendants_tagged]
  have "descendants_tagged s" .
  with m off mesh
  have none: "\<forall>r\<in>set (as_array (material clicked)). \<not> clickable_material (materials s r)"
    unfolding descendants_tagged_def by blast
  have "forEach (as_array (material clicked)) click_material s = Inr s"
  proof (rule forEach_idle, rule ballI)
    fix r
    assume "r \<in> set (as_array (material clicked))"
    with none have "\<not> clickable_material (materials s r)" by simp
    then show "click_material r s = Inr s"
      by (simp add: clickable_material_def click_material_skip)
  qed
  with Cons show ?thesis by (simp add: on_click_hit)
qed

lemma clickable_cottage_materials:
  "clickable_material (cottage_materials 30)" "\<not> clickable_material (cottage_materials 31)"
  "clickable_material (cottage_materials 32)"
  by (simp_all add: clickable_material_def cottage_materials_def roofMaterialName_def
      get_property_def otherMaterialColors_def objectPrototype_def)

lemma run_cottage:
  "run [EnvLoaded, ModelLoaded cottage] (init True 800 600) = Inr cottage_loaded"
  "cottage_loaded =
     (init True 800 600)
       \<lparr>clickableMeshes := [cottage_roof],
        materials := cottage_materials,
        scene_environment := True,
        scene_model := Some (gltf_scene cottage),
        loading := []\<rparr>"
proof -
  have "fold (tag_child cottage_materials) (traverse (gltf_scene cottage)) [] = [cottage_roof]"
    by (simp add: cottage_def tag_child_def cottage_roof_def chimney_def trim_def
        clickable_cottage_materials)
  moreover have "gltf_materials cottage = cottage_materials"
    by (simp add: cottage_def)
  ultimately have run: "run [EnvLoaded, ModelLoaded cottage] (init True 800 600) =
     Inr ((init True 800 600)
       \<lparr>clickableMeshes := [cottage_roof],
        materials := cottage_materials,
        scene_environment := True,
        scene_model := Some (gltf_scene cottage),
        loading := []\<rparr>)"
    by (simp add: init_fields on_env_loaded_def loadModel_def on_model_loaded_def)
  then show "cottage_loaded =
     (init True 800 600)
       \<lparr>clickableMeshes := [cottage_roof],
        materials := cottage_materials,
        scene_environment := True,
        scene_model := Some (gltf_scene cottage),
        loading := []\<rparr>"
    unfolding cottage_loaded_def by (simp only: sum.sel)
  with run show "run [EnvLoaded, ModelLoaded cottage] (init True 800 600) = Inr cottage_loaded"
    by (simp only:)
qed

lemma cottage_loaded_fields:
  "clickableMeshes cottage_loaded = [cottage_roof]"
  "materials cottage_loaded = cottage_materials"
  "materialInfoBox cottage_loaded = \<lparr>display = [], opacity = []\<rparr>"
  by (simp_all add: run_cottage(2) init_fields)

lemma below_cottage_roof:
  "traverse cottage_roof = [cottage_roof, chimney, trim]"
  by (simp add: cottage_roof_def chimney_def trim_def)

lemma cottage_objects:
  "chimney \<noteq> cottage_roof" "trim \<noteq> cottage_roof" "ground \<noteq> cottage_roof"
  "ground \<noteq> chimney" "ground \<noteq> trim" "chimney \<noteq> trim"
  "isMesh chimney" "\<not> isMesh trim"
  by (simp_all add: cottage_roof_def chimney_def trim_def ground_def)

theorem click_off_the_clickable_set_witness:
  "run [EnvLoaded, ModelLoaded cottage] (init True 800 600) = Inr cottage_loaded
   \<and> chimney \<notin> set (clickableMeshes cottage_loaded)
   \<and> ground \<notin> set (clickableMeshes cottage_loaded)
   \<and> chimney \<in> set (concat (map traverse (clickableMeshes cottage_loaded)))
   \<and> isMesh chimney
   \<and> ground \<notin> set (concat (map traverse (clickableMeshes cottage_loaded)))
   \<and> intersectObjects (clickableMeshes cottage_loaded) [chimney, ground] = [chimney]
   \<and> on_click [chimney, ground] cottage_loaded = Inr cottage_loaded"
proof -
  have facts: "chimney \<notin> set (clickableMeshes cottage_loaded)"
    "ground \<notin> set (clickableMeshes cottage_loaded)"
    "chimney \<in> set (concat (map traverse (clickableMeshes cottage_loaded)))"
    "isMesh chimney"
    "ground \<notin> set (concat (map traverse (clickableMeshes cottage_loaded)))"
    "intersectObjects (clickableMeshes cottage_loaded) [chimney, ground] = [chimney]"
    by (simp_all add: cottage_loaded_fields below_cottage_roof cottage_objects
        intersectObjects_def)
  then have "\<forall>x\<in>set [chimney, ground]. x \<notin> set (clickableMeshes cottage_loaded)
        \<and> (x \<in> set (concat (map traverse (clickableMeshes cottage_loaded))) \<longrightarrow> isMesh x)"
    by simp
  from click_off_the_clickable_set [OF run_cottage(1) this] facts run_cottage(1)
  show ?thesis by simp
qed

text \<open>
  The claim as it stands asks only that the ray meet no mesh of the clickable list. The
  cottage's trim is a line below the roof: it is no mesh, so the load callback does not
  list it, but the ray caster finds it below the roof and the click handler, which does not
  ask whether its hit is a mesh, recolours its window material and shows the info box.
\<close>

lemma click_trim:
  "on_click [trim] cottage_loaded =
     Inr (cottage_loaded
       \<lparr>materials := cottage_materials(32 := \<lparr>name = ''Glass.009'', color = ''#87CEEB''\<rparr>),
        materialText := Str ''Title of obj: WINDOW'',
        materialInfoBox := \<lparr>display = ''block'', opacity = []\<rparr>\<rparr>)"
proof -
  have "intersectObjects (clickableMeshes cottage_loaded) [trim] = [trim]"
    by (simp add: cottage_loaded_fields below_cottage_roof intersectObjects_def)
  moreover have "as_array (material trim) = [32]" by (simp add: trim_def)
  ultimately show ?thesis
    by (simp add: on_click_def click_material_def Let_def cottage_loaded_fields
        cottage_materials_def roofMaterialName_def get_property_def otherMaterialColors_def
        materialDescriptions_def or_else_def)
qed

theorem click_below_clickable_mesh_recolours:
  "run [EnvLoaded, ModelLoaded cottage] (init True 800 600) = Inr cottage_loaded
   \<and> clickableMeshes cottage_loaded = [cottage_roof]
   \<and> trim \<notin> set (clickableMeshes cottage_loaded)
   \<and> \<not> isl (on_click [trim] cottage_loaded)
   \<and> color (materials cottage_loaded 32) = ''#E0FFFF''
   \<and> color (materials (projr (on_click [trim] cottage_loaded)) 32) = ''#87CEEB''
   \<and> display (materialInfoBox cottage_loaded) = []
   \<and> display (materialInfoBox (projr (on_click [trim] cottage_loaded))) = ''block''"
  unfolding click_trim run_cottage(1)
  by (simp add: cottage_loaded_fields cottage_objects cottage_materials_def)

end
